theory Spec2Isabelle
  imports Main "HOL-Library.Char_ord" "HOL-Library.List_Lexorder" "HOL-Library.Multiset"
begin

section \<open>JavaScript strings\<close>

text \<open>
  A JavaScript string is modelled as a \<^typ>\<open>string\<close>; each \<^typ>\<open>char\<close> stands for one
  code unit below 256. The emoji and the terminal colours of the console messages are
  not part of the model: a console line is an \<open>event\<close> that carries the data printed.
\<close>

definition is_white_space :: "char \<Rightarrow> bool" where
  \<comment> \<open>WhiteSpace and LineTerminator code units below 256: TAB, LF, VT, FF, CR, SP, NBSP\<close>
  "is_white_space c = (of_char c \<in> {9, 10, 11, 12, 13, 32, 160 :: nat})"

definition trim :: "string \<Rightarrow> string" where
  \<comment> \<open>\<open>String.prototype.trim\<close>\<close>
  "trim s = rev (dropWhile is_white_space (rev (dropWhile is_white_space s)))"

fun starts_with :: "string \<Rightarrow> string \<Rightarrow> bool" where
  "starts_with s [] = True"
| "starts_with [] (n # ns) = False"
| "starts_with (c # cs) (n # ns) = (c = n \<and> starts_with cs ns)"

fun includes_str :: "string \<Rightarrow> string \<Rightarrow> bool" where
  \<comment> \<open>\<open>String.prototype.includes\<close>: \<open>includes_str s n\<close> is \<open>s.includes(n)\<close>\<close>
  "includes_str [] n = (n = [])"
| "includes_str (c # cs) n = (starts_with (c # cs) n \<or> includes_str cs n)"

fun join :: "string \<Rightarrow> string list \<Rightarrow> string" where
  \<comment> \<open>\<open>Array.prototype.join\<close> on an array of strings: \<open>join sep xs\<close> is \<open>xs.join(sep)\<close>\<close>
  "join sep [] = []"
| "join sep [x] = x"
| "join sep (x # y # ys) = x @ sep @ join sep (y # ys)"

section \<open>Errors, the environment and the process state\<close>

record js_error =
  message :: string
  cmd :: "string option"     \<comment> \<open>set on the errors of \<open>child_process.exec\<close>: the command\<close>
  stderr :: "string option"  \<comment> \<open>set on the errors of \<open>child_process.exec\<close>\<close>
  status :: "nat option"     \<comment> \<open>set on the request errors of the REST client\<close>

definition Error :: "string \<Rightarrow> js_error" where
  \<comment> \<open>\<open>new Error(msg)\<close>\<close>
  "Error msg = \<lparr>message = msg, cmd = None, stderr = None, status = None\<rparr>"

datatype event =
    Fetching string                 \<comment> \<open>\<open>Fetching repositories for <owner>...\<close>\<close>
  | Unable_to_determine_owner       \<comment> \<open>the four \<open>console.error\<close> lines of \<open>validateAndGetOwner\<close>\<close>
  | Failed_to_fetch js_error        \<comment> \<open>\<open>Failed to fetch repositories:\<close> and the error\<close>
  | Repositories_not_found string   \<comment> \<open>\<open>Repositories not found: <names>\<close>\<close>
  | No_repositories_selected
  | Creating string nat             \<comment> \<open>\<open>Creating branch '<name>' in <n> repositories...\<close>\<close>
  | All_done
  | Operation_cancelled
  | Error_reported js_error         \<comment> \<open>\<open>Error:\<close> and the error\<close>
  | CLI_not_found                   \<comment> \<open>the two \<open>console.error\<close> lines of the main wrapper\<close>

datatype task_state = Not_run | Completed | Failed string

record raw_repo =
  \<comment> \<open>one element of the parsed output of \<open>gh repo list --json name,defaultBranchRef,nameWithOwner\<close>;
      \<open>defaultBranchRef\<close> is \<open>None\<close> when the field is null or absent, \<open>Some None\<close> when the
      object has no \<open>name\<close>, \<open>Some (Some n)\<close> otherwise\<close>
  raw_name :: string
  defaultBranchRef :: "string option option"
  nameWithOwner :: string

record Repository =
  name :: string
  defaultBranch :: string
  full_name :: string

record 'w env =
  GITHUB_ORG :: string
    \<comment> \<open>\<open>process.env.BRANCH_SYNC_GITHUB_ORG || ""\<close>\<close>
  shell :: "string \<Rightarrow> 'w \<Rightarrow> (js_error + string) \<times> 'w"
    \<comment> \<open>what running a command does to the world: an error, or the standard output\<close>
  JSON_parse :: "string \<Rightarrow> js_error + raw_repo list"
  localeCompare :: "string \<Rightarrow> string \<Rightarrow> int"
    \<comment> \<open>\<open>String.prototype.localeCompare\<close> of the runtime: \<open>localeCompare env a b\<close> is \<open>a.localeCompare(b)\<close>\<close>
  prompt :: "string list \<Rightarrow> 'w \<Rightarrow> (js_error + nat list) \<times> 'w"
    \<comment> \<open>the checkbox prompt: given the labels of the choices, the user cancels (an error) or
        ticks the choices at the indices returned\<close>
  colour :: bool
    \<comment> \<open>whether chalk emits colour codes\<close>

record 'w proc =
  world :: 'w
  cmds :: "string list"                      \<comment> \<open>the commands run so far, oldest first\<close>
  console :: "event list"                    \<comment> \<open>the console lines so far, oldest first\<close>
  tasks :: "(string \<times> task_state) list"      \<comment> \<open>title and state of each task of the last task list\<close>

definition start :: "'w \<Rightarrow> 'w proc" where
  "start w = \<lparr>world = w, cmds = [], console = [], tasks = []\<rparr>"

definition print :: "event \<Rightarrow> 'w proc \<Rightarrow> 'w proc" where
  "print e s = s\<lparr>console := console s @ [e]\<rparr>"

definition exec :: "'w env \<Rightarrow> string \<Rightarrow> 'w proc \<Rightarrow> (js_error + string) \<times> 'w proc" where
  \<comment> \<open>the promisified \<open>child_process.exec\<close>: only \<open>stdout\<close> of the result is ever read, and
      the runtime stores the command in the error it rejects with\<close>
  "exec env command s =
     (case shell env command (world s) of
        (Inl error, w) \<Rightarrow>
          (Inl (error\<lparr>cmd := Some command\<rparr>), s\<lparr>world := w, cmds := cmds s @ [command]\<rparr>)
      | (Inr stdout, w) \<Rightarrow> (Inr stdout, s\<lparr>world := w, cmds := cmds s @ [command]\<rparr>))"

definition chalk :: "'w env \<Rightarrow> string \<Rightarrow> string \<Rightarrow> string" where
  \<comment> \<open>a chalk style with the given opening code: the text wrapped in escape sequences, or
      the text itself when colours are off\<close>
  "chalk env code text =
     (if colour env then [char_of (27::nat)] @ ''['' @ code @ ''m'' @ text @ [char_of (27::nat)] @ ''[39m''
      else text)"

definition chalk_yellow :: "'w env \<Rightarrow> string \<Rightarrow> string" where
  "chalk_yellow env = chalk env ''33''"

definition chalk_cyan :: "'w env \<Rightarrow> string \<Rightarrow> string" where
  "chalk_cyan env = chalk env ''36''"

section \<open>Owner, prerequisite and listing\<close>

definition getCurrentUser :: "'w env \<Rightarrow> 'w proc \<Rightarrow> (js_error + string) \<times> 'w proc" where
  "getCurrentUser env s =
     (case exec env ''gh api user --jq .login'' s of
        (Inr stdout, s1) \<Rightarrow> (Inr (trim stdout), s1)
      | (Inl error, s1) \<Rightarrow>
          (Inl (Error (''Failed to get GitHub user. Please run '' @ [CHR 0x27] @ ''gh auth login'' @ [CHR 0x27])), s1))"

definition validateAndGetOwner :: "'w env \<Rightarrow> 'w proc \<Rightarrow> (js_error + string) \<times> 'w proc" where
  "validateAndGetOwner env s =
     (if GITHUB_ORG env \<noteq> [] then (Inr (GITHUB_ORG env), s)
      else
        (case getCurrentUser env s of
           (Inr currentUser, s1) \<Rightarrow> (Inr currentUser, s1)
         | (Inl error, s1) \<Rightarrow> (Inl error, print Unable_to_determine_owner s1)))"

definition checkGitHubCLI :: "'w env \<Rightarrow> 'w proc \<Rightarrow> bool \<times> 'w proc" where
  "checkGitHubCLI env s =
     (case exec env ''gh --version'' s of
        (Inr stdout, s1) \<Rightarrow> (True, s1)
      | (Inl error, s1) \<Rightarrow> (False, s1))"

definition or_default :: "string option \<Rightarrow> string \<Rightarrow> string" where
  \<comment> \<open>\<open>x || d\<close> for \<open>x\<close> a string or undefined: the empty string is falsy\<close>
  "or_default x d = (case x of None \<Rightarrow> d | Some v \<Rightarrow> (if v = [] then d else v))"

definition normalize :: "raw_repo \<Rightarrow> Repository" where
  \<comment> \<open>the callback of \<open>repos.map\<close> in \<open>getRepositories\<close>; \<open>repo.defaultBranchRef?.name\<close> is
      undefined when \<open>defaultBranchRef\<close> is null or absent\<close>
  "normalize repo =
     \<lparr>name = raw_name repo,
      defaultBranch =
        or_default (case defaultBranchRef repo of None \<Rightarrow> None | Some ref \<Rightarrow> ref) ''main'',
      full_name = nameWithOwner repo\<rparr>"

fun insert_by :: "('a \<Rightarrow> 'a \<Rightarrow> int) \<Rightarrow> 'a \<Rightarrow> 'a list \<Rightarrow> 'a list" where
  "insert_by cmp x [] = [x]"
| "insert_by cmp x (y # ys) =
     (if cmp x y \<le> 0 then x # y # ys else y # insert_by cmp x ys)"

definition sort_by :: "('a \<Rightarrow> 'a \<Rightarrow> int) \<Rightarrow> 'a list \<Rightarrow> 'a list" where
  \<comment> \<open>\<open>Array.prototype.sort(cmp)\<close>, a stable sort: for a consistent comparator its result is
      the one of this stable insertion sort (for an inconsistent one the language leaves
      the order to the implementation)\<close>
  "sort_by cmp xs = foldr (insert_by cmp) xs []"

definition by_full_name :: "'w env \<Rightarrow> Repository \<Rightarrow> Repository \<Rightarrow> int" where
  \<comment> \<open>the comparator \<open>(a, b) => a.full_name.localeCompare(b.full_name)\<close>\<close>
  "by_full_name env a b = localeCompare env (full_name a) (full_name b)"

definition list_command :: "string \<Rightarrow> string" where
  "list_command owner =
     ''gh repo list '' @ owner @ '' --limit 1000 --json name,defaultBranchRef,nameWithOwner''"

definition getRepositories ::
  "'w env \<Rightarrow> string \<Rightarrow> 'w proc \<Rightarrow> (js_error + Repository list) \<times> 'w proc" where
  "getRepositories env owner s =
     (case exec env (list_command owner) s of
        (Inl error, s1) \<Rightarrow> (Inl error, print (Failed_to_fetch error) s1)
      | (Inr stdout, s1) \<Rightarrow>
          (case JSON_parse env stdout of
             Inl error \<Rightarrow> (Inl error, print (Failed_to_fetch error) s1)
           | Inr repos \<Rightarrow> (Inr (sort_by (by_full_name env) (map normalize repos)), s1)))"

section \<open>Creating one branch\<close>

definition view_command :: "string \<Rightarrow> string \<Rightarrow> string" where
  "view_command owner repoName =
     ''gh repo view '' @ owner @ ''/'' @ repoName
       @ '' --json defaultBranchRef --jq .defaultBranchRef.name''"

definition sha_command :: "string \<Rightarrow> string \<Rightarrow> string \<Rightarrow> string" where
  "sha_command owner repoName branch =
     ''gh api repos/'' @ owner @ ''/'' @ repoName @ ''/git/refs/heads/'' @ branch
       @ '' --jq .object.sha''"

definition create_command :: "string \<Rightarrow> string \<Rightarrow> string \<Rightarrow> string \<Rightarrow> string" where
  "create_command owner repoName branchName sha =
     ''gh api repos/'' @ owner @ ''/'' @ repoName @ ''/git/refs -f ref=refs/heads/'' @ branchName
       @ '' -f sha='' @ sha"

definition createBranch_try ::
  "'w env \<Rightarrow> string \<Rightarrow> string \<Rightarrow> string \<Rightarrow> 'w proc \<Rightarrow> (js_error + unit) \<times> 'w proc" where
  \<comment> \<open>the \<open>try\<close> block of \<open>createBranch\<close>\<close>
  "createBranch_try env owner repoName branchName s =
     (case exec env (view_command owner repoName) s of
        (Inl error, s1) \<Rightarrow> (Inl error, s1)
      | (Inr defaultBranchStdout, s1) \<Rightarrow>
          (let branch = or_default (Some (trim defaultBranchStdout)) ''main'' in
           case exec env (sha_command owner repoName branch) s1 of
             (Inl error, s2) \<Rightarrow> (Inl error, s2)
           | (Inr shaStdout, s2) \<Rightarrow>
               (let sha = trim shaStdout in
                case exec env (create_command owner repoName branchName sha) s2 of
                  (Inl error, s3) \<Rightarrow> (Inl error, s3)
                | (Inr stdout, s3) \<Rightarrow> (Inr (), s3))))"

definition reference_already_exists :: "js_error \<Rightarrow> bool" where
  \<comment> \<open>\<open>error.stderr && error.stderr.includes("Reference already exists")\<close>\<close>
  "reference_already_exists error =
     (case stderr error of
        None \<Rightarrow> False
      | Some text \<Rightarrow> text \<noteq> [] \<and> includes_str text ''Reference already exists'')"

definition createBranch ::
  "'w env \<Rightarrow> string \<Rightarrow> string \<Rightarrow> string \<Rightarrow> 'w proc \<Rightarrow> (js_error + unit) \<times> 'w proc" where
  "createBranch env owner repoName branchName s =
     (case createBranch_try env owner repoName branchName s of
        (Inr u, s1) \<Rightarrow> (Inr u, s1)
      | (Inl error, s1) \<Rightarrow>
          (if reference_already_exists error then (Inl (Error ''Branch already exists''), s1)
           else (Inl error, s1)))"

section \<open>Selection\<close>

definition label :: "Repository \<Rightarrow> string" where
  "label repo = full_name repo @ '' ('' @ defaultBranch repo @ '')''"

definition selectRepositories ::
  "'w env \<Rightarrow> Repository list \<Rightarrow> 'w proc \<Rightarrow> (js_error + Repository list) \<times> 'w proc" where
  \<comment> \<open>the checkbox prompt answers with the values of the ticked choices, in the order of
      the choices\<close>
  "selectRepositories env repos s =
     (case prompt env (map label repos) (world s) of
        (Inl error, w) \<Rightarrow> (Inl error, s\<lparr>world := w\<rparr>)
      | (Inr ticked, w) \<Rightarrow>
          (Inr (map snd (filter (\<lambda>(i, repo). i \<in> set ticked) (zip [0..<length repos] repos))),
           s\<lparr>world := w\<rparr>))"

definition selectedRepos :: "Repository list \<Rightarrow> string list \<Rightarrow> Repository list" where
  \<comment> \<open>\<open>allRepos.filter((repo) => repoNames.includes(repo.name))\<close>\<close>
  "selectedRepos allRepos repoNames = filter (\<lambda>repo. name repo \<in> set repoNames) allRepos"

definition notFound :: "Repository list \<Rightarrow> string list \<Rightarrow> string list" where
  \<comment> \<open>\<open>repoNames.filter((name) => !allRepos.some((repo) => repo.name === name))\<close>\<close>
  "notFound allRepos repoNames =
     filter (\<lambda>n. \<not> list_ex (\<lambda>repo. name repo = n) allRepos) repoNames"

definition warn_not_found :: "Repository list \<Rightarrow> string list \<Rightarrow> 'w proc \<Rightarrow> 'w proc" where
  "warn_not_found allRepos repoNames s =
     (if length (notFound allRepos repoNames) > 0
      then print (Repositories_not_found (join '', '' (notFound allRepos repoNames))) s
      else s)"

definition select ::
  "'w env \<Rightarrow> Repository list \<Rightarrow> string list option \<Rightarrow> 'w proc
     \<Rightarrow> (js_error + Repository list) \<times> 'w proc" where
  \<comment> \<open>the \<open>if (repoNames && repoNames.length > 0)\<close> of \<open>run\<close> that assigns \<open>selectedRepos\<close>\<close>
  "select env allRepos repoNames s =
     (case repoNames of
        None \<Rightarrow> selectRepositories env allRepos s
      | Some ns \<Rightarrow>
          (if length ns > 0
           then (Inr (selectedRepos allRepos ns), warn_not_found allRepos ns s)
           else selectRepositories env allRepos s))"

section \<open>The task list and the run\<close>

type_synonym 'w task = "string \<times> ('w proc \<Rightarrow> (js_error + unit) \<times> 'w proc)"

definition branch_task :: "'w env \<Rightarrow> string \<Rightarrow> string \<Rightarrow> Repository \<Rightarrow> 'w task" where
  \<comment> \<open>the task object that \<open>run\<close> builds for one selected repository\<close>
  "branch_task env owner branchName repo =
     (''Creating branch in '' @ chalk_cyan env (name repo),
      \<lambda>s. case createBranch env owner (name repo) branchName s of
             (Inr u, s1) \<Rightarrow> (Inr u, s1)
           | (Inl error, s1) \<Rightarrow>
               (if includes_str (message error) ''already exists''
                then (Inl (Error (chalk_yellow env ''Branch already exists'')), s1)
                else (Inl error, s1)))"

fun listr_tasks ::
  "'w task list \<Rightarrow> 'w proc \<Rightarrow> (js_error + unit) \<times> (string \<times> task_state) list \<times> 'w proc" where
  \<comment> \<open>\<open>new Listr(tasks).run()\<close> with the options the source passes, which are none: the
      library then runs the tasks one after the other (\<open>concurrent\<close> is off) and, since
      \<open>exitOnError\<close> is not set to false, a task that throws is marked failed with the
      error's message and its error rejects the run; the tasks after it are not started\<close>
  "listr_tasks [] s = (Inr (), [], s)"
| "listr_tasks ((title, task) # rest) s =
     (case task s of
        (Inl error, s1) \<Rightarrow>
          (Inl error, (title, Failed (message error)) # map (\<lambda>(t, _). (t, Not_run)) rest, s1)
      | (Inr u, s1) \<Rightarrow>
          (case listr_tasks rest s1 of
             (r, report, s2) \<Rightarrow> (r, (title, Completed) # report, s2)))"

definition Listr_run :: "'w task list \<Rightarrow> 'w proc \<Rightarrow> (js_error + unit) \<times> 'w proc" where
  "Listr_run ts s = (case listr_tasks ts s of (r, report, s1) \<Rightarrow> (r, s1\<lparr>tasks := report\<rparr>))"

definition run_selected ::
  "'w env \<Rightarrow> string \<Rightarrow> string \<Rightarrow> Repository list \<Rightarrow> 'w proc \<Rightarrow> (js_error + unit) \<times> 'w proc" where
  \<comment> \<open>the \<open>try\<close> block of \<open>run\<close> from \<open>if (selectedRepos.length === 0)\<close> on\<close>
  "run_selected env owner branchName repos s =
     (if length repos = 0 then (Inr (), print No_repositories_selected s)
      else
        (case Listr_run (map (branch_task env owner branchName) repos)
                (print (Creating branchName (length repos)) s) of
           (Inl error, s1) \<Rightarrow> (Inl error, s1)
         | (Inr u, s1) \<Rightarrow> (Inr (), print All_done s1)))"

definition run_try ::
  "'w env \<Rightarrow> string \<Rightarrow> string list option \<Rightarrow> 'w proc \<Rightarrow> (js_error + unit) \<times> 'w proc" where
  \<comment> \<open>the \<open>try\<close> block of \<open>run\<close>\<close>
  "run_try env branchName repoNames s =
     (case validateAndGetOwner env s of
        (Inl error, s1) \<Rightarrow> (Inl error, s1)
      | (Inr owner, s1) \<Rightarrow>
          (case getRepositories env owner (print (Fetching owner) s1) of
             (Inl error, s2) \<Rightarrow> (Inl error, s2)
           | (Inr allRepos, s2) \<Rightarrow>
               (case select env allRepos repoNames s2 of
                  (Inl error, s3) \<Rightarrow> (Inl error, s3)
                | (Inr repos, s3) \<Rightarrow> run_selected env owner branchName repos s3)))"

datatype exit_status = Returned | Exited nat

definition exit_code :: "exit_status \<Rightarrow> nat" where
  \<comment> \<open>a process that is never told to exit ends with code 0\<close>
  "exit_code e = (case e of Returned \<Rightarrow> 0 | Exited n \<Rightarrow> n)"

definition run ::
  "'w env \<Rightarrow> string \<Rightarrow> string list option \<Rightarrow> 'w proc \<Rightarrow> exit_status \<times> 'w proc" where
  "run env branchName repoNames s =
     (case run_try env branchName repoNames s of
        (Inr u, s1) \<Rightarrow> (Returned, s1)
      | (Inl error, s1) \<Rightarrow>
          (if message error = ''Prompt was cancelled''
           then (Exited 0, print Operation_cancelled s1)
           else (Exited 1, print (Error_reported error) s1)))"

definition main ::
  "'w env \<Rightarrow> string \<Rightarrow> string list \<Rightarrow> 'w proc \<Rightarrow> exit_status \<times> 'w proc" where
  \<comment> \<open>the main wrapper, after the command line is parsed into the branch name and the
      repository names (an empty list when none is given)\<close>
  "main env branchName repositories s =
     (case checkGitHubCLI env s of
        (False, s1) \<Rightarrow> (Exited 1, print CLI_not_found s1)
      | (True, s1) \<Rightarrow> run env branchName (Some repositories) s1)"

definition invoked :: "string \<Rightarrow> string \<Rightarrow> 'w proc \<Rightarrow> bool" where
  \<comment> \<open>\<open>createBranch\<close> was entered for the repository: its first command was run\<close>
  "invoked owner repoName s = (view_command owner repoName \<in> set (cmds s))"

section \<open>The earlier variant on the REST client\<close>

record rest_repo =
  \<comment> \<open>one element of the listing of the REST client; \<open>default_branch\<close> is \<open>None\<close> when the
      field is null or absent\<close>
  rest_name :: string
  default_branch :: "string option"
  rest_full_name :: string

definition normalize_rest :: "rest_repo \<Rightarrow> Repository" where
  \<comment> \<open>the callback of \<open>repos.map\<close>, with \<open>repo.default_branch ?? "main"\<close>\<close>
  "normalize_rest repo =
     \<lparr>name = rest_name repo,
      defaultBranch = (case default_branch repo of None \<Rightarrow> ''main'' | Some b \<Rightarrow> b),
      full_name = rest_full_name repo\<rparr>"

datatype request =
    Repos_get string string                   \<comment> \<open>owner, repo; answers \<open>data.default_branch\<close>\<close>
  | Git_getRef string string string           \<comment> \<open>owner, repo, ref; answers \<open>data.object.sha\<close>\<close>
  | Git_createRef string string string string \<comment> \<open>owner, repo, ref, sha\<close>

definition createBranch_rest ::
  "(request \<Rightarrow> 'w \<Rightarrow> (js_error + string) \<times> 'w) \<Rightarrow> string \<Rightarrow> string \<Rightarrow> string \<Rightarrow> 'w
     \<Rightarrow> (js_error + unit) \<times> 'w" where
  "createBranch_rest octokit OWNER repoName branchName w =
     (case
        (case octokit (Repos_get OWNER repoName) w of
           (Inl error, w1) \<Rightarrow> (Inl error, w1)
         | (Inr branch, w1) \<Rightarrow>
             (case octokit (Git_getRef OWNER repoName (''heads/'' @ branch)) w1 of
                (Inl error, w2) \<Rightarrow> (Inl error, w2)
              | (Inr sha, w2) \<Rightarrow>
                  (case octokit (Git_createRef OWNER repoName (''refs/heads/'' @ branchName) sha) w2 of
                     (Inl error, w3) \<Rightarrow> (Inl error, w3)
                   | (Inr data, w3) \<Rightarrow> (Inr (), w3))))
      of
        (Inr u, w4) \<Rightarrow> (Inr u, w4)
      | (Inl error, w4) \<Rightarrow>
          (if status error = Some 422 then (Inl (Error ''Branch already exists''), w4)
           else (Inl error, w4)))"

section \<open>A sample environment\<close>

text \<open>
  An owner \<open>acme\<close> with three repositories, one of them without default-branch
  information. The world is the list of the repositories in which the branch \<open>x\<close>
  exists already; creating it there is refused with the conflict of the hosting service.
\<close>

definition sample_raw :: "raw_repo list" where
  "sample_raw =
     [\<lparr>raw_name = ''foo'', defaultBranchRef = Some (Some ''main''), nameWithOwner = ''acme/foo''\<rparr>,
      \<lparr>raw_name = ''bar'', defaultBranchRef = Some (Some ''develop''), nameWithOwner = ''acme/bar''\<rparr>,
      \<lparr>raw_name = ''New'', defaultBranchRef = None, nameWithOwner = ''acme/New''\<rparr>]"

definition sample_repos :: "Repository list" where
  "sample_repos =
     [\<lparr>name = ''foo'', defaultBranch = ''main'', full_name = ''acme/foo''\<rparr>,
      \<lparr>name = ''bar'', defaultBranch = ''develop'', full_name = ''acme/bar''\<rparr>]"

definition sample_conflict :: js_error where
  "sample_conflict =
     \<lparr>message = ''Command failed'', cmd = None,
      stderr = Some ''gh: Reference already exists (HTTP 422)'', status = None\<rparr>"

definition sample_shell :: "string \<Rightarrow> string list \<Rightarrow> (js_error + string) \<times> string list" where
  "sample_shell command w =
     (if command = ''gh --version'' then (Inr ''gh version 2.40.0'', w)
      else if command = ''gh api user --jq .login'' then (Inr (''acme'' @ [CHR 0x0A]), w)
      else if command = list_command ''acme'' then (Inr ''[...]'', w)
      else if command = view_command ''acme'' ''New'' then (Inr [CHR 0x0A], w)
      else if command \<in> set (map (view_command ''acme'') [''foo'', ''bar''])
        then (Inr (''trunk'' @ [CHR 0x0A]), w)
      else if command \<in> {sha_command ''acme'' ''foo'' ''trunk'', sha_command ''acme'' ''bar'' ''trunk'',
                          sha_command ''acme'' ''New'' ''main''}
        then (Inr (''c0ffee'' @ [CHR 0x0A]), w)
      else
        (case find (\<lambda>r. command = create_command ''acme'' r ''x'' ''c0ffee'') [''foo'', ''bar'', ''New''] of
           Some r \<Rightarrow> (if r \<in> set w then (Inl sample_conflict, w) else (Inr ''{}'', r # w))
         | None \<Rightarrow> (Inl (Error ''Command failed''), w)))"

definition codeunit_compare :: "string \<Rightarrow> string \<Rightarrow> int" where
  \<comment> \<open>the comparator of the case-sensitive lexicographic order on code units\<close>
  "codeunit_compare a b = (if a < b then - 1 else if a = b then 0 else 1)"

definition sample_env :: "string list env" where
  "sample_env =
     \<lparr>GITHUB_ORG = [], shell = sample_shell,
      JSON_parse = (\<lambda>text. if text = ''[...]'' then Inr sample_raw else Inl (Error ''Unexpected token'')),
      localeCompare = codeunit_compare,
      prompt = (\<lambda>labels w. (Inr [], w)),
      colour = False\<rparr>"

definition ascending :: "(string \<Rightarrow> string \<Rightarrow> int) \<Rightarrow> Repository list \<Rightarrow> bool" where
  \<comment> \<open>the full names ascend under the order of the comparator\<close>
  "ascending cmp repos = sorted_wrt (\<lambda>a b. cmp (full_name a) (full_name b) \<le> 0) repos"

definition same_key :: "(string \<Rightarrow> string \<Rightarrow> int) \<Rightarrow> string \<Rightarrow> Repository \<Rightarrow> bool" where
  \<comment> \<open>the full name of the repository and \<open>k\<close> compare as equal\<close>
  "same_key cmp k r = (cmp (full_name r) k \<le> 0 \<and> cmp k (full_name r) \<le> 0)"

definition lower :: "char \<Rightarrow> char" where
  "lower c = (if CHR ''A'' \<le> c \<and> c \<le> CHR ''Z'' then char_of (of_char c + (32::nat)) else c)"

definition dictionary_compare :: "string \<Rightarrow> string \<Rightarrow> int" where
  \<comment> \<open>a comparator in the manner of a locale collation: the strings are compared without
      regard to the case of their letters, and case decides only between strings that are
      otherwise equal, lower case first\<close>
  "dictionary_compare a b =
     (if map lower a < map lower b then - 1
      else if map lower b < map lower a then 1
      else if b < a then - 1
      else if a = b then 0 else 1)"

definition collating_env :: "string list env" where
  "collating_env = sample_env\<lparr>localeCompare := dictionary_compare\<rparr>"




section \<open>Basic facts\<close>

lemma print_fields [simp]:
  "cmds (print e s) = cmds s" "world (print e s) = world s" "tasks (print e s) = tasks s"
  "console (print e s) = console s @ [e]"
  by (simp_all add: print_def)

lemma exec_cmds: "cmds (snd (exec env c s)) = cmds s @ [c]"
  by (simp add: exec_def split: prod.splits sum.splits)


lemma starts_with_append: "starts_with (r @ b) r"
  by (induction r) simp_all

lemma includes_str_starts_with: "starts_with s n \<Longrightarrow> includes_str s n"
  by (cases s; cases n) simp_all

lemma includes_str_prefix: "includes_str (r @ b) r"
  by (simp add: includes_str_starts_with starts_with_append)


lemma set_insert_by: "set (insert_by cmp x ys) = insert x (set ys)"
  by (induction ys) auto

lemma set_sort_by: "set (sort_by cmp xs) = set xs"
  by (induction xs) (simp_all add: sort_by_def set_insert_by)

lemma select_named:
  "L \<noteq> [] \<Longrightarrow> select env R (Some L) s = (Inr (selectedRepos R L), warn_not_found R L s)"
  by (simp add: select_def)

lemma set_selectedRepos: "set (selectedRepos R L) = {r \<in> set R. name r \<in> set L}"
  by (auto simp: selectedRepos_def)

lemma set_notFound: "set (notFound R L) = {l \<in> set L. \<forall>r\<in>set R. name r \<noteq> l}"
  by (auto simp: notFound_def list_ex_iff)

lemma notFound_filter: "notFound R L = filter (\<lambda>l. l \<notin> name ` set R) L"
  by (auto simp: notFound_def list_ex_iff intro!: filter_cong)

lemma count_list_filter: "count_list (filter P xs) x = (if P x then count_list xs x else 0)"
  by (induction xs) auto

lemma selectedRepos_cong: "set L' = set L \<Longrightarrow> selectedRepos R L' = selectedRepos R L"
  by (simp add: selectedRepos_def)

lemma warn_not_found_console:
  "notFound R L \<noteq> [] \<Longrightarrow>
     console (warn_not_found R L s) = console s @ [Repositories_not_found (join '', '' (notFound R L))]"
  by (simp add: warn_not_found_def)

section \<open>Classification of a failed ref creation\<close>


text \<open>
  The earlier variant on the REST client takes the status 422 of the rejected request as
  the signal: a rejection with that status, whatever its message, becomes the error
  \<open>Branch already exists\<close>, and an error with another status or with none is passed on
  unchanged.
\<close>

lemma createBranch_rest_status_422:
  assumes "octokit (Repos_get OWNER repoName) w = (Inr branch, w1)"
    and "octokit (Git_getRef OWNER repoName (''heads/'' @ branch)) w1 = (Inr sha, w2)"
    and "octokit (Git_createRef OWNER repoName (''refs/heads/'' @ branchName) sha) w2 = (Inl e, w3)"
  shows "createBranch_rest octokit OWNER repoName branchName w =
          (if status e = Some 422 then Inl (Error ''Branch already exists'') else Inl e, w3)"
  using assms by (simp add: createBranch_rest_def)



section \<open>Normalisation of the default branch\<close>

text \<open>
  C7. A repository of the listing whose default-branch information is missing (the field
  \<open>defaultBranchRef\<close> is null or absent, or has no name or an empty one) is returned by \<open>getRepositories\<close>
  with \<open>defaultBranch\<close> equal to \<open>main\<close>; the earlier variant on the REST client does the
  same for a missing \<open>default_branch\<close>.
\<close>

theorem missing_default_branch_is_main:
  "(exec env (list_command owner) s = (Inr stdout, s1) \<longrightarrow> JSON_parse env stdout = Inr raws \<longrightarrow>
      raw \<in> set raws \<longrightarrow>
      (defaultBranchRef raw = None \<or> defaultBranchRef raw = Some None
         \<or> defaultBranchRef raw = Some (Some [])) \<longrightarrow>
      (\<exists>repos. getRepositories env owner s = (Inr repos, s1)
           \<and> \<lparr>name = raw_name raw, defaultBranch = ''main'', full_name = nameWithOwner raw\<rparr> \<in> set repos))
   \<and> (default_branch r = None \<longrightarrow>
        normalize_rest r = \<lparr>name = rest_name r, defaultBranch = ''main'', full_name = rest_full_name r\<rparr>)"
  by (auto simp: getRepositories_def set_sort_by normalize_def normalize_rest_def or_default_def
        image_iff intro!: bexI[of _ raw])

theorem missing_default_branch_is_main_witness:
  "exec sample_env (list_command ''acme'') (start [])
     = (Inr ''[...]'', \<lparr>world = [], cmds = [list_command ''acme''], console = [], tasks = []\<rparr>)
   \<and> JSON_parse sample_env ''[...]'' = Inr sample_raw
   \<and> \<lparr>raw_name = ''New'', defaultBranchRef = None, nameWithOwner = ''acme/New''\<rparr> \<in> set sample_raw
   \<and> (\<exists>repos. getRepositories sample_env ''acme'' (start [])
          = (Inr repos, \<lparr>world = [], cmds = [list_command ''acme''], console = [], tasks = []\<rparr>)
        \<and> \<lparr>name = ''New'', defaultBranch = ''main'', full_name = ''acme/New''\<rparr> \<in> set repos)
   \<and> normalize_rest \<lparr>rest_name = ''New'', default_branch = None, rest_full_name = ''acme/New''\<rparr>
       = \<lparr>name = ''New'', defaultBranch = ''main'', full_name = ''acme/New''\<rparr>"
proof -
  let ?s1 = "\<lparr>world = [], cmds = [list_command ''acme''], console = [], tasks = []\<rparr> :: string list proc"
  let ?raw = "\<lparr>raw_name = ''New'', defaultBranchRef = None, nameWithOwner = ''acme/New''\<rparr>"
  let ?r = "\<lparr>rest_name = ''New'', default_branch = None, rest_full_name = ''acme/New''\<rparr>"
  have a: "exec sample_env (list_command ''acme'') (start []) = (Inr ''[...]'', ?s1)"
    by code_simp
  have b: "JSON_parse sample_env ''[...]'' = Inr sample_raw"
    by code_simp
  have c: "?raw \<in> set sample_raw"
    by (simp add: sample_raw_def)
  from missing_default_branch_is_main[of sample_env "''acme''" "start []" "''[...]''" ?s1
      sample_raw ?raw ?r] a b c
  show ?thesis
    by simp
qed

section \<open>The default branch at creation time\<close>

text \<open>
  C10. When the default-branch name that \<open>createBranch\<close> fetches is empty (after trimming),
  the command that looks up the head commit asks for the branch \<open>main\<close>: the commands run
  by the call are the default-branch query, the lookup of \<open>heads/main\<close> and, if the
  lookup succeeds, the creation of the ref at the commit it returned.
\<close>

theorem createBranch_empty_default_branch:
  assumes "exec env (view_command owner repoName) s = (Inr out, s1)" and "trim out = []"
  shows "cmds (snd (createBranch env owner repoName branchName s)) =
         cmds s @ [view_command owner repoName, sha_command owner repoName ''main''] @
           (case fst (exec env (sha_command owner repoName ''main'') s1) of
              Inl e \<Rightarrow> []
            | Inr shaStdout \<Rightarrow> [create_command owner repoName branchName (trim shaStdout)])"
proof -
  have c1: "cmds s1 = cmds s @ [view_command owner repoName]"
    using exec_cmds[of env "view_command owner repoName" s] assms(1) by simp
  show ?thesis
  proof (cases "exec env (sha_command owner repoName ''main'') s1")
    case (Pair r s2)
    have c2: "cmds s2 = cmds s1 @ [sha_command owner repoName ''main'']"
      using exec_cmds[of env "sha_command owner repoName ''main''" s1] Pair by simp
    show ?thesis
    proof (cases r)
      case (Inl e)
      with Pair assms c1 c2 show ?thesis
        by (simp add: createBranch_def createBranch_try_def or_default_def)
    next
      case (Inr shaStdout)
      obtain r3 s3
        where e3: "exec env (create_command owner repoName branchName (trim shaStdout)) s2 = (r3, s3)"
        by (cases "exec env (create_command owner repoName branchName (trim shaStdout)) s2")
      have c3: "cmds s3 = cmds s2 @ [create_command owner repoName branchName (trim shaStdout)]"
        using exec_cmds[of env "create_command owner repoName branchName (trim shaStdout)" s2] e3
        by simp
      from Inr Pair assms c1 c2 c3 e3 show ?thesis
        by (cases r3) (simp_all add: createBranch_def createBranch_try_def or_default_def)
    qed
  qed
qed

theorem createBranch_empty_default_branch_witness:
  "exec sample_env (view_command ''acme'' ''New'') (start [])
     = (Inr [CHR 0x0A], \<lparr>world = [], cmds = [view_command ''acme'' ''New''], console = [], tasks = []\<rparr>)
   \<and> trim [CHR 0x0A] = []
   \<and> cmds (snd (createBranch sample_env ''acme'' ''New'' ''x'' (start [])))
       = [''gh repo view acme/New --json defaultBranchRef --jq .defaultBranchRef.name'',
          ''gh api repos/acme/New/git/refs/heads/main --jq .object.sha'',
          ''gh api repos/acme/New/git/refs -f ref=refs/heads/x -f sha=c0ffee'']"
proof -
  let ?s1 = "\<lparr>world = [], cmds = [view_command ''acme'' ''New''], console = [], tasks = []\<rparr>
               :: string list proc"
  have a: "exec sample_env (view_command ''acme'' ''New'') (start []) = (Inr [CHR 0x0A], ?s1)"
    by code_simp
  have b: "trim [CHR 0x0A] = []"
    by code_simp
  have c: "cmds (start ([] :: string list)) @ [view_command ''acme'' ''New'', sha_command ''acme'' ''New'' ''main''] @
           (case fst (exec sample_env (sha_command ''acme'' ''New'' ''main'') ?s1) of
              Inl e \<Rightarrow> []
            | Inr shaStdout \<Rightarrow> [create_command ''acme'' ''New'' ''x'' (trim shaStdout)])
       = [''gh repo view acme/New --json defaultBranchRef --jq .defaultBranchRef.name'',
          ''gh api repos/acme/New/git/refs/heads/main --jq .object.sha'',
          ''gh api repos/acme/New/git/refs -f ref=refs/heads/x -f sha=c0ffee'']"
    by code_simp
  from createBranch_empty_default_branch[OF a b, of "''x''"] a b c
  show ?thesis
    by simp
qed

section \<open>Selection by name\<close>

text \<open>
  C4. For a non-empty list \<open>L\<close> of names, the selection is the list of the repositories
  of \<open>R\<close> whose name is a member of \<open>L\<close> (equality of strings), and the console receives
  one warning that lists, joined by a comma and a space, names whose set is the set of
  the names of \<open>L\<close> that no repository of \<open>R\<close> has; it receives nothing when every name
  matches. Both depend on the set of names only: a list with the same members, in any
  order and with any repetition, selects the same list of repositories and warns about
  the same set of names; a repository is selected as many times as it occurs in \<open>R\<close>,
  however often its name occurs in \<open>L\<close>.
\<close>

theorem select_by_name:
  assumes "L \<noteq> []"
  shows "select env R (Some L) s = (Inr (selectedRepos R L), warn_not_found R L s)
     \<and> set (selectedRepos R L) = {r \<in> set R. name r \<in> set L}
     \<and> set (notFound R L) = {l \<in> set L. \<forall>r\<in>set R. name r \<noteq> l}
     \<and> (\<forall>L'. set L' = set L \<longrightarrow>
           selectedRepos R L' = selectedRepos R L \<and> set (notFound R L') = set (notFound R L))
     \<and> (\<forall>r. count_list (selectedRepos R L) r = (if name r \<in> set L then count_list R r else 0))
     \<and> fst (select env R (Some L) s) = Inr (filter (\<lambda>r. name r \<in> set L) R)
     \<and> console (snd (select env R (Some L) s))
         = console s @ (if set L \<subseteq> name ` set R then []
                        else [Repositories_not_found (join '', '' (notFound R L))])
     \<and> world (snd (select env R (Some L) s)) = world s
     \<and> cmds (snd (select env R (Some L) s)) = cmds s
     \<and> tasks (snd (select env R (Some L) s)) = tasks s"
proof -
  have "count_list (selectedRepos R L) r = (if name r \<in> set L then count_list R r else 0)" for r
    unfolding selectedRepos_def by (rule count_list_filter)
  moreover have "selectedRepos R L' = selectedRepos R L \<and> set (notFound R L') = set (notFound R L)"
    if "set L' = set L" for L'
    using that selectedRepos_cong[OF that, of R] by (simp add: set_notFound)
  moreover note sel = select_named[OF assms, of env R s]
  moreover note set_selectedRepos[of R L] set_notFound[of R L]
  moreover have "fst (select env R (Some L) s) = Inr (filter (\<lambda>r. name r \<in> set L) R)"
    using sel by (simp add: selectedRepos_def)
  moreover have "console (snd (select env R (Some L) s))
         = console s @ (if set L \<subseteq> name ` set R then []
                        else [Repositories_not_found (join '', '' (notFound R L))])"
  proof (cases "set L \<subseteq> name ` set R")
    case True
    then have "notFound R L = []"
      by (auto simp: notFound_filter filter_empty_conv)
    with True sel show ?thesis by (simp add: warn_not_found_def)
  next
    case False
    then have "notFound R L \<noteq> []"
      by (auto simp: notFound_filter filter_empty_conv)
    from warn_not_found_console[OF this, of s] False sel show ?thesis by simp
  qed
  moreover have "world (snd (select env R (Some L) s)) = world s"
    "cmds (snd (select env R (Some L) s)) = cmds s"
    "tasks (snd (select env R (Some L) s)) = tasks s"
    using sel by (simp_all add: warn_not_found_def)
  ultimately show ?thesis
    by blast
qed

theorem select_by_name_witness:
  "[''foo'', ''baz'', ''foo''] \<noteq> []
   \<and> set [''baz'', ''foo''] = set [''foo'', ''baz'', ''foo'']
   \<and> fst (select sample_env sample_repos (Some [''foo'', ''baz'', ''foo'']) (start []))
       = Inr [\<lparr>name = ''foo'', defaultBranch = ''main'', full_name = ''acme/foo''\<rparr>]
   \<and> selectedRepos sample_repos [''baz'', ''foo''] = selectedRepos sample_repos [''foo'', ''baz'', ''foo'']
   \<and> set (notFound sample_repos [''foo'', ''baz'', ''foo'']) = {''baz''}
   \<and> count_list (selectedRepos sample_repos [''foo'', ''baz'', ''foo''])
        \<lparr>name = ''foo'', defaultBranch = ''main'', full_name = ''acme/foo''\<rparr> = 1
   \<and> console (snd (select sample_env sample_repos (Some [''foo'', ''baz'', ''foo'']) (start [])))
       = [Repositories_not_found ''baz'']
   \<and> console (snd (select sample_env sample_repos (Some [''bar'', ''foo'']) (start []))) = []
   \<and> cmds (snd (select sample_env sample_repos (Some [''foo'', ''baz'', ''foo'']) (start []))) = []"
proof -
  let ?L = "[''foo'', ''baz'', ''foo'']"
  let ?M = "[''bar'', ''foo'']"
  let ?foo = "\<lparr>name = ''foo'', defaultBranch = ''main'', full_name = ''acme/foo''\<rparr>"
  have ne: "?L \<noteq> []" and ne': "?M \<noteq> []"
    by simp_all
  have eq: "set [''baz'', ''foo''] = set ?L"
    by auto
  have sel: "selectedRepos sample_repos ?L = [?foo]"
    by code_simp
  have nf: "{l \<in> set ?L. \<forall>r\<in>set sample_repos. name r \<noteq> l} = {''baz''}"
    by (auto simp: sample_repos_def)
  have cnt: "count_list sample_repos ?foo = 1"
    by (simp add: sample_repos_def)
  have mem: "name ?foo \<in> set ?L"
    by simp
  have names: "name ` set sample_repos = {''foo'', ''bar''}"
    by (simp add: sample_repos_def)
  have sub: "\<not> set ?L \<subseteq> name ` set sample_repos" and sub': "set ?M \<subseteq> name ` set sample_repos"
    unfolding names by simp_all
  have j: "join '', '' (notFound sample_repos ?L) = ''baz''"
    by code_simp
  have st: "console (start ([] :: string list)) = []" "cmds (start ([] :: string list)) = []"
    by (simp_all add: start_def)
  note inst = select_by_name[OF ne, of sample_env sample_repos "start []"]
  note inst' = select_by_name[OF ne', of sample_env sample_repos "start []"]
  have "fst (select sample_env sample_repos (Some ?L) (start [])) = Inr [?foo]"
    using inst[THEN conjunct1] sel by simp
  moreover have "selectedRepos sample_repos [''baz'', ''foo''] = selectedRepos sample_repos ?L"
    using inst[THEN conjunct2, THEN conjunct2, THEN conjunct2, THEN conjunct1, THEN spec,
        of "[''baz'', ''foo'']"] eq
    by (rule mp[THEN conjunct1])
  moreover have "set (notFound sample_repos ?L) = {''baz''}"
    using inst[THEN conjunct2, THEN conjunct2, THEN conjunct1] nf by (rule trans)
  moreover have "count_list (selectedRepos sample_repos ?L) ?foo = 1"
    using inst[THEN conjunct2, THEN conjunct2, THEN conjunct2, THEN conjunct2, THEN conjunct1,
        THEN spec, of ?foo] cnt mem
    by (simp only: if_True)
  moreover have "console (snd (select sample_env sample_repos (Some ?L) (start [])))
      = [Repositories_not_found ''baz'']"
    using inst[THEN conjunct2, THEN conjunct2, THEN conjunct2, THEN conjunct2, THEN conjunct2,
        THEN conjunct2, THEN conjunct1] sub j st
    by (simp only: if_False append_Nil)
  moreover have "console (snd (select sample_env sample_repos (Some ?M) (start []))) = []"
    using inst'[THEN conjunct2, THEN conjunct2, THEN conjunct2, THEN conjunct2, THEN conjunct2,
        THEN conjunct2, THEN conjunct1] sub' st
    by (simp only: if_True append_Nil)
  moreover have "cmds (snd (select sample_env sample_repos (Some ?L) (start []))) = []"
    using inst[THEN conjunct2, THEN conjunct2, THEN conjunct2, THEN conjunct2, THEN conjunct2,
        THEN conjunct2, THEN conjunct2, THEN conjunct2, THEN conjunct1] st
    by simp
  ultimately show ?thesis
    using ne eq by (intro conjI)
qed

section \<open>The warning about names that match no repository\<close>

text \<open>
  C5, as the code has it. For a non-empty list \<open>L\<close> of names of which at least one matches
  no repository, one warning is printed; it lists the unmatched names joined by a comma
  and a space, in the order given, each as many times as it occurs in \<open>L\<close>: a name given
  twice is listed twice, and every unmatched name is listed once when \<open>L\<close> has no
  repetition.
\<close>

theorem not_found_warning:
  assumes "L \<noteq> []" and "l \<in> set L" and "l \<notin> name ` set R"
  shows "console (snd (select env R (Some L) s))
           = console s @ [Repositories_not_found (join '', '' (notFound R L))]
     \<and> notFound R L = filter (\<lambda>l. l \<notin> name ` set R) L
     \<and> (\<forall>n. count_list (notFound R L) n = (if n \<in> name ` set R then 0 else count_list L n))
     \<and> (distinct L \<longrightarrow> distinct (notFound R L))"
proof -
  have ne: "notFound R L \<noteq> []"
    using assms(2,3) by (auto simp: notFound_filter filter_empty_conv)
  have cnt: "count_list (notFound R L) n = (if n \<in> name ` set R then 0 else count_list L n)" for n
    by (simp add: notFound_filter count_list_filter)
  show ?thesis
    using assms(1) ne cnt by (simp add: select_named warn_not_found_console notFound_filter)
qed

theorem not_found_warning_witness:
  "[''qux'', ''foo'', ''baz''] \<noteq> [] \<and> ''baz'' \<in> set [''qux'', ''foo'', ''baz'']
   \<and> ''baz'' \<notin> name ` set sample_repos \<and> distinct [''qux'', ''foo'', ''baz'']
   \<and> console (snd (select sample_env sample_repos (Some [''qux'', ''foo'', ''baz'']) (start [])))
       = [Repositories_not_found ''qux, baz'']
   \<and> distinct (notFound sample_repos [''qux'', ''foo'', ''baz''])"
proof -
  let ?L = "[''qux'', ''foo'', ''baz'']"
  have a: "?L \<noteq> []" and b: "''baz'' \<in> set ?L" and d: "distinct ?L"
    by simp_all
  have c: "''baz'' \<notin> name ` set sample_repos"
    by (simp add: sample_repos_def)
  have j: "join '', '' (notFound sample_repos ?L) = ''qux, baz''"
    by code_simp
  have k: "console (start ([] :: string list)) = []"
    by (simp add: start_def)
  from not_found_warning[OF a b c, of sample_env "start []"] a b c d j k
  show ?thesis
    by simp
qed

theorem not_found_warning_repeats_duplicates:
  "console (snd (select sample_env sample_repos (Some [''baz'', ''foo'', ''baz'']) (start [])))
     = [Repositories_not_found ''baz, baz'']
   \<and> count_list (notFound sample_repos [''baz'', ''foo'', ''baz'']) ''baz'' = 2"
  by code_simp

lemma exec_frame:
  "exec env c s = (r, s1) \<Longrightarrow>
     cmds s1 = cmds s @ [c] \<and> tasks s1 = tasks s \<and> console s1 = console s"
  by (auto simp: exec_def split: prod.splits sum.splits)

lemma validateAndGetOwner_frame:
  "validateAndGetOwner env s = (Inr owner, s1) \<Longrightarrow>
     cmds s1 = cmds s @ (if GITHUB_ORG env \<noteq> [] then [] else [''gh api user --jq .login''])
     \<and> tasks s1 = tasks s \<and> console s1 = console s"
  by (auto simp: validateAndGetOwner_def getCurrentUser_def
        split: if_splits prod.splits sum.splits dest: exec_frame)

lemma getRepositories_frame:
  "getRepositories env owner s = (Inr repos, s1) \<Longrightarrow>
     cmds s1 = cmds s @ [list_command owner] \<and> tasks s1 = tasks s \<and> console s1 = console s"
  by (auto simp: getRepositories_def split: prod.splits sum.splits dest: exec_frame)

lemma warn_not_found_frame [simp]:
  "cmds (warn_not_found R L s) = cmds s" "tasks (warn_not_found R L s) = tasks s"
  "world (warn_not_found R L s) = world s"
  by (simp_all add: warn_not_found_def)

lemma select_frame:
  "select env R names s = (r, s1) \<Longrightarrow> cmds s1 = cmds s \<and> tasks s1 = tasks s"
  by (auto simp: select_def selectRepositories_def split: option.splits if_splits prod.splits sum.splits)

section \<open>An empty selection\<close>

text \<open>
  C9. When the owner is resolved, the listing succeeds and the selection, by names or by
  the prompt, is empty, \<open>run\<close> prints \<open>No repositories selected\<close> and returns: the process
  is not told to exit and ends with code 0. The only commands run are the one that
  resolves the owner (when no organisation is configured) and the listing: no command of
  \<open>createBranch\<close> is run and no task is started.
\<close>

theorem empty_selection_exits_cleanly:
  assumes "validateAndGetOwner env s = (Inr owner, s1)"
    and "getRepositories env owner (print (Fetching owner) s1) = (Inr allRepos, s2)"
    and "select env allRepos repoNames s2 = (Inr [], s3)"
  shows "run env branchName repoNames s = (Returned, print No_repositories_selected s3)
     \<and> exit_code (fst (run env branchName repoNames s)) = 0
     \<and> cmds (snd (run env branchName repoNames s))
         = cmds s @ (if GITHUB_ORG env \<noteq> [] then [] else [''gh api user --jq .login''])
             @ [list_command owner]
     \<and> tasks (snd (run env branchName repoNames s)) = tasks s"
proof -
  have r: "run env branchName repoNames s = (Returned, print No_repositories_selected s3)"
    using assms by (simp add: run_def run_try_def run_selected_def)
  have "cmds s3 = cmds s @ (if GITHUB_ORG env \<noteq> [] then [] else [''gh api user --jq .login''])
             @ [list_command owner]"
    using validateAndGetOwner_frame[OF assms(1)] getRepositories_frame[OF assms(2)]
      select_frame[OF assms(3)]
    by simp
  moreover have "tasks s3 = tasks s"
    using validateAndGetOwner_frame[OF assms(1)] getRepositories_frame[OF assms(2)]
      select_frame[OF assms(3)]
    by simp
  ultimately show ?thesis
    using r by (simp add: exit_code_def)
qed

theorem empty_selection_exits_cleanly_witness:
  "validateAndGetOwner sample_env (start [])
     = (Inr ''acme'', \<lparr>world = [], cmds = [''gh api user --jq .login''], console = [], tasks = []\<rparr>)
   \<and> run sample_env ''x'' None (start [])
     = (Returned,
        \<lparr>world = [], cmds = [''gh api user --jq .login'', list_command ''acme''],
         console = [Fetching ''acme'', No_repositories_selected], tasks = []\<rparr>)
   \<and> exit_code (fst (run sample_env ''x'' None (start []))) = 0
   \<and> run sample_env ''x'' (Some [''baz'']) (start [])
     = (Returned,
        \<lparr>world = [], cmds = [''gh api user --jq .login'', list_command ''acme''],
         console = [Fetching ''acme'', Repositories_not_found ''baz'', No_repositories_selected],
         tasks = []\<rparr>)"
proof -
  let ?s1 = "\<lparr>world = [], cmds = [''gh api user --jq .login''], console = [], tasks = []\<rparr>
               :: string list proc"
  let ?s2 = "\<lparr>world = [], cmds = [''gh api user --jq .login'', list_command ''acme''],
              console = [Fetching ''acme''], tasks = []\<rparr> :: string list proc"
  let ?s3 = "\<lparr>world = [], cmds = [''gh api user --jq .login'', list_command ''acme''],
              console = [Fetching ''acme'', Repositories_not_found ''baz''], tasks = []\<rparr>
               :: string list proc"
  let ?all = "sort_by (by_full_name sample_env) (map normalize sample_raw)"
  have a: "validateAndGetOwner sample_env (start []) = (Inr ''acme'', ?s1)"
    by code_simp
  have b: "getRepositories sample_env ''acme'' (print (Fetching ''acme'') ?s1) = (Inr ?all, ?s2)"
    by code_simp
  have c: "select sample_env ?all None ?s2 = (Inr [], ?s2)"
    by code_simp
  have c': "select sample_env ?all (Some [''baz'']) ?s2 = (Inr [], ?s3)"
    by code_simp
  have p: "print No_repositories_selected ?s2
      = \<lparr>world = [], cmds = [''gh api user --jq .login'', list_command ''acme''],
         console = [Fetching ''acme'', No_repositories_selected], tasks = []\<rparr>"
    by (simp add: print_def)
  have p': "print No_repositories_selected ?s3
      = \<lparr>world = [], cmds = [''gh api user --jq .login'', list_command ''acme''],
         console = [Fetching ''acme'', Repositories_not_found ''baz'', No_repositories_selected],
         tasks = []\<rparr>"
    by (simp add: print_def)
  from empty_selection_exits_cleanly[OF a b c, of "''x''"]
    empty_selection_exits_cleanly[OF a b c', of "''x''"] a p p'
  show ?thesis
    by (simp add: exit_code_def)
qed

lemma mset_insert_by: "mset (insert_by cmp x ys) = add_mset x (mset ys)"
  by (induction ys) auto

lemma mset_sort_by: "mset (sort_by cmp xs) = mset xs"
  by (induction xs) (simp_all add: sort_by_def mset_insert_by)

lemma sorted_insert_by:
  assumes total: "\<And>a b. cmp a b \<le> 0 \<or> cmp b a \<le> 0"
    and trans: "\<And>a b c. cmp a b \<le> 0 \<Longrightarrow> cmp b c \<le> 0 \<Longrightarrow> cmp a c \<le> 0"
  shows "sorted_wrt (\<lambda>a b. cmp a b \<le> 0) ys \<Longrightarrow> sorted_wrt (\<lambda>a b. cmp a b \<le> 0) (insert_by cmp x ys)"
proof (induction ys)
  case Nil
  show ?case by simp
next
  case (Cons y ys)
  show ?case
  proof (cases "cmp x y \<le> 0")
    case True
    have "cmp x z \<le> 0" if "z \<in> set ys" for z
      using Cons.prems that trans[OF True, of z] by simp
    with True Cons.prems show ?thesis by simp
  next
    case False
    then have yx: "cmp y x \<le> 0" using total[of x y] by simp
    from Cons have "sorted_wrt (\<lambda>a b. cmp a b \<le> 0) (insert_by cmp x ys)" by simp
    with False yx Cons.prems show ?thesis by (auto simp: set_insert_by)
  qed
qed

lemma sorted_sort_by:
  assumes "\<And>a b. cmp a b \<le> 0 \<or> cmp b a \<le> 0"
    and "\<And>a b c. cmp a b \<le> 0 \<Longrightarrow> cmp b c \<le> 0 \<Longrightarrow> cmp a c \<le> 0"
  shows "sorted_wrt (\<lambda>a b. cmp a b \<le> 0) (sort_by cmp xs)"
proof (induction xs)
  case Nil
  show ?case by (simp add: sort_by_def)
next
  case (Cons x xs)
  then show ?case
    using sorted_insert_by[of cmp "sort_by cmp xs" x, OF assms] by (simp add: sort_by_def)
qed

lemma filter_insert_by:
  assumes total: "\<And>a b. cmp a b \<le> 0 \<or> cmp b a \<le> 0"
    and trans: "\<And>a b c. cmp a b \<le> 0 \<Longrightarrow> cmp b c \<le> 0 \<Longrightarrow> cmp a c \<le> 0"
  shows "filter (\<lambda>y. cmp y k \<le> 0 \<and> cmp k y \<le> 0) (insert_by cmp x ys)
       = (if cmp x k \<le> 0 \<and> cmp k x \<le> 0
          then x # filter (\<lambda>y. cmp y k \<le> 0 \<and> cmp k y \<le> 0) ys
          else filter (\<lambda>y. cmp y k \<le> 0 \<and> cmp k y \<le> 0) ys)"
proof (induction ys)
  case Nil
  show ?case by simp
next
  case (Cons y ys)
  show ?case
  proof (cases "cmp x y \<le> 0")
    case True
    then show ?thesis by simp
  next
    case False
    have "\<not> (cmp x k \<le> 0 \<and> cmp k y \<le> 0)"
      using False trans[of x k y] by blast
    with False Cons show ?thesis by auto
  qed
qed

lemma sort_by_stable:
  assumes "\<And>a b. cmp a b \<le> 0 \<or> cmp b a \<le> 0"
    and "\<And>a b c. cmp a b \<le> 0 \<Longrightarrow> cmp b c \<le> 0 \<Longrightarrow> cmp a c \<le> 0"
  shows "filter (\<lambda>y. cmp y k \<le> 0 \<and> cmp k y \<le> 0) (sort_by cmp xs)
       = filter (\<lambda>y. cmp y k \<le> 0 \<and> cmp k y \<le> 0) xs"
proof (induction xs)
  case Nil
  show ?case by (simp add: sort_by_def)
next
  case (Cons x xs)
  have "filter (\<lambda>y. cmp y k \<le> 0 \<and> cmp k y \<le> 0) (sort_by cmp (x # xs))
      = filter (\<lambda>y. cmp y k \<le> 0 \<and> cmp k y \<le> 0) (insert_by cmp x (sort_by cmp xs))"
    by (simp add: sort_by_def)
  also have "\<dots> = (if cmp x k \<le> 0 \<and> cmp k x \<le> 0
          then x # filter (\<lambda>y. cmp y k \<le> 0 \<and> cmp k y \<le> 0) (sort_by cmp xs)
          else filter (\<lambda>y. cmp y k \<le> 0 \<and> cmp k y \<le> 0) (sort_by cmp xs))"
    by (rule filter_insert_by[OF assms])
  also have "\<dots> = filter (\<lambda>y. cmp y k \<le> 0 \<and> cmp k y \<le> 0) (x # xs)"
    using Cons.IH by simp
  finally show ?case .
qed

lemma sorted_wrt_unique:
  assumes "sorted_wrt R xs" and "sorted_wrt R ys" and "mset xs = mset ys"
    and "\<And>a b. a \<in> set xs \<Longrightarrow> b \<in> set xs \<Longrightarrow> R a b \<Longrightarrow> R b a \<Longrightarrow> a = b"
  shows "xs = ys"
  using assms
proof (induction xs arbitrary: ys)
  case Nil
  then show ?case by simp
next
  case (Cons x xs)
  from Cons.prems(3) obtain y ys' where ys: "ys = y # ys'"
    by (cases ys) auto
  have sets: "set (x # xs) = set (y # ys')"
    using Cons.prems(3) ys by (metis set_mset_mset)
  have "x = y"
  proof (rule ccontr)
    assume ne: "x \<noteq> y"
    with sets have mem: "x \<in> set ys'" "y \<in> set xs" by auto
    then have "R y x" and "R x y"
      using Cons.prems(1,2) ys by auto
    with Cons.prems(4)[of x y] mem(2) ne show False by simp
  qed
  moreover have "xs = ys'"
  proof (rule Cons.IH)
    show "sorted_wrt R xs" using Cons.prems(1) by simp
    show "sorted_wrt R ys'" using Cons.prems(2) ys by simp
    show "mset xs = mset ys'" using Cons.prems(3) ys \<open>x = y\<close> by simp
    show "a = b" if "a \<in> set xs" "b \<in> set xs" "R a b" "R b a" for a b
      using Cons.prems(4)[of a b] that by simp
  qed
  ultimately show ?case using ys by simp
qed

section \<open>The order of the listing\<close>

text \<open>
  C6, as the code has it. The listing is sorted with the comparator
  \<open>a.full_name.localeCompare(b.full_name)\<close>, the collation of the runtime's locale, which
  need not be the case-sensitive lexicographic order of the code units. Whenever that
  comparator is a total preorder, the list returned by \<open>getRepositories\<close> ascends by full
  name under it, holds the normalised entries of the listing, keeps entries whose full
  names compare as equal in the order of the response (the sort is stable), and is the
  same for every order of the response when no two entries have full names that compare
  as equal.
\<close>

theorem listing_sorted_by_localeCompare:
  assumes total: "\<forall>a b. localeCompare env a b \<le> 0 \<or> localeCompare env b a \<le> 0"
    and trans: "\<forall>a b c. localeCompare env a b \<le> 0 \<longrightarrow> localeCompare env b c \<le> 0
                  \<longrightarrow> localeCompare env a c \<le> 0"
    and listing: "exec env (list_command owner) s = (Inr stdout, s1)"
    and parsed: "JSON_parse env stdout = Inr raws"
  shows "\<exists>repos. getRepositories env owner s = (Inr repos, s1)
     \<and> ascending (localeCompare env) repos
     \<and> mset repos = mset (map normalize raws)
     \<and> (\<forall>k. filter (same_key (localeCompare env) k) repos
             = filter (same_key (localeCompare env) k) (map normalize raws))
     \<and> (\<forall>raws'. mset raws' = mset raws \<longrightarrow>
           (\<forall>a\<in>set raws. \<forall>b\<in>set raws.
               localeCompare env (nameWithOwner a) (nameWithOwner b) \<le> 0 \<longrightarrow>
               localeCompare env (nameWithOwner b) (nameWithOwner a) \<le> 0 \<longrightarrow> a = b) \<longrightarrow>
           sort_by (by_full_name env) (map normalize raws') = repos)"
proof -
  let ?cmp = "by_full_name env"
  let ?R = "\<lambda>a b. ?cmp a b \<le> 0"
  have t: "?cmp a b \<le> 0 \<or> ?cmp b a \<le> 0" for a b
    using total by (simp add: by_full_name_def)
  have tr: "?cmp a b \<le> 0 \<Longrightarrow> ?cmp b c \<le> 0 \<Longrightarrow> ?cmp a c \<le> 0" for a b c
    using trans unfolding by_full_name_def by blast
  have sorted: "sorted_wrt ?R (sort_by ?cmp xs)" for xs
    by (rule sorted_sort_by[of ?cmp, OF t tr])
  have get: "getRepositories env owner s = (Inr (sort_by ?cmp (map normalize raws)), s1)"
    using listing parsed by (simp add: getRepositories_def)
  have asc: "ascending (localeCompare env) (sort_by ?cmp (map normalize raws))"
    using sorted[of "map normalize raws"] by (simp add: ascending_def by_full_name_def)
  have stable: "filter (same_key (localeCompare env) k) (sort_by ?cmp (map normalize raws))
             = filter (same_key (localeCompare env) k) (map normalize raws)" for k
  proof -
    let ?k = "\<lparr>name = [], defaultBranch = [], full_name = k\<rparr>"
    have "same_key (localeCompare env) k = (\<lambda>y. ?cmp y ?k \<le> 0 \<and> ?cmp ?k y \<le> 0)"
      by (simp add: same_key_def by_full_name_def fun_eq_iff)
    then show ?thesis
      using sort_by_stable[of ?cmp ?k "map normalize raws", OF t tr] by simp
  qed
  have perm: "sort_by ?cmp (map normalize raws') = sort_by ?cmp (map normalize raws)"
    if m: "mset raws' = mset raws"
      and d: "\<forall>a\<in>set raws. \<forall>b\<in>set raws.
               localeCompare env (nameWithOwner a) (nameWithOwner b) \<le> 0 \<longrightarrow>
               localeCompare env (nameWithOwner b) (nameWithOwner a) \<le> 0 \<longrightarrow> a = b"
    for raws'
  proof (rule sorted_wrt_unique[of ?R])
    show "sorted_wrt ?R (sort_by ?cmp (map normalize raws'))" by (rule sorted)
    show "sorted_wrt ?R (sort_by ?cmp (map normalize raws))" by (rule sorted)
    have "mset (map normalize raws') = mset (map normalize raws)"
      using m by (metis mset_map)
    then show "mset (sort_by ?cmp (map normalize raws')) = mset (sort_by ?cmp (map normalize raws))"
      by (simp add: mset_sort_by)
    show "a = b"
      if "a \<in> set (sort_by ?cmp (map normalize raws'))"
        and "b \<in> set (sort_by ?cmp (map normalize raws'))"
        and "?cmp a b \<le> 0" and "?cmp b a \<le> 0" for a b
    proof -
      have "set raws' = set raws" using m by (metis set_mset_mset)
      with that(1,2) obtain x y where xy: "x \<in> set raws" "y \<in> set raws"
        "a = normalize x" "b = normalize y"
        by (auto simp: set_sort_by)
      with that(3,4) d have "x = y"
        by (simp add: by_full_name_def normalize_def)
      with xy show ?thesis by simp
    qed
  qed
  have ms: "mset (sort_by ?cmp (map normalize raws)) = mset (map normalize raws)"
    by (rule mset_sort_by)
  show ?thesis
  proof (intro exI[of _ "sort_by ?cmp (map normalize raws)"] conjI allI impI)
    show "getRepositories env owner s = (Inr (sort_by ?cmp (map normalize raws)), s1)"
      by (rule get)
    show "ascending (localeCompare env) (sort_by ?cmp (map normalize raws))"
      by (rule asc)
    show "mset (sort_by ?cmp (map normalize raws)) = mset (map normalize raws)"
      by (rule ms)
    show "filter (same_key (localeCompare env) k) (sort_by ?cmp (map normalize raws))
             = filter (same_key (localeCompare env) k) (map normalize raws)" for k
      by (rule stable)
    show "sort_by ?cmp (map normalize raws') = sort_by ?cmp (map normalize raws)"
      if "mset raws' = mset raws"
        and "\<forall>a\<in>set raws. \<forall>b\<in>set raws.
               localeCompare env (nameWithOwner a) (nameWithOwner b) \<le> 0 \<longrightarrow>
               localeCompare env (nameWithOwner b) (nameWithOwner a) \<le> 0 \<longrightarrow> a = b"
      for raws'
      using that by (rule perm)
  qed
qed

lemma codeunit_compare_le: "codeunit_compare a b \<le> 0 \<longleftrightarrow> a \<le> b"
  by (auto simp: codeunit_compare_def)

theorem listing_sorted_by_localeCompare_witness:
  "localeCompare sample_env = codeunit_compare
   \<and> mset (rev sample_raw) = mset sample_raw
   \<and> fst (getRepositories sample_env ''acme'' (start []))
       = Inr [\<lparr>name = ''New'', defaultBranch = ''main'', full_name = ''acme/New''\<rparr>,
              \<lparr>name = ''bar'', defaultBranch = ''develop'', full_name = ''acme/bar''\<rparr>,
              \<lparr>name = ''foo'', defaultBranch = ''main'', full_name = ''acme/foo''\<rparr>]
   \<and> ascending codeunit_compare
        [\<lparr>name = ''New'', defaultBranch = ''main'', full_name = ''acme/New''\<rparr>,
         \<lparr>name = ''bar'', defaultBranch = ''develop'', full_name = ''acme/bar''\<rparr>,
         \<lparr>name = ''foo'', defaultBranch = ''main'', full_name = ''acme/foo''\<rparr>]
   \<and> sort_by (by_full_name sample_env) (map normalize (rev sample_raw))
       = [\<lparr>name = ''New'', defaultBranch = ''main'', full_name = ''acme/New''\<rparr>,
          \<lparr>name = ''bar'', defaultBranch = ''develop'', full_name = ''acme/bar''\<rparr>,
          \<lparr>name = ''foo'', defaultBranch = ''main'', full_name = ''acme/foo''\<rparr>]"
proof -
  let ?s1 = "\<lparr>world = [], cmds = [list_command ''acme''], console = [], tasks = []\<rparr> :: string list proc"
  let ?out = "[\<lparr>name = ''New'', defaultBranch = ''main'', full_name = ''acme/New''\<rparr>,
          \<lparr>name = ''bar'', defaultBranch = ''develop'', full_name = ''acme/bar''\<rparr>,
          \<lparr>name = ''foo'', defaultBranch = ''main'', full_name = ''acme/foo''\<rparr>]"
  have lc: "localeCompare sample_env = codeunit_compare"
    by (simp add: sample_env_def)
  have total: "\<forall>a b. localeCompare sample_env a b \<le> 0 \<or> localeCompare sample_env b a \<le> 0"
    unfolding lc codeunit_compare_le by (simp add: linear)
  have trans: "\<forall>a b c. localeCompare sample_env a b \<le> 0 \<longrightarrow> localeCompare sample_env b c \<le> 0
                  \<longrightarrow> localeCompare sample_env a c \<le> 0"
    unfolding lc codeunit_compare_le by (meson order_trans)
  have a: "exec sample_env (list_command ''acme'') (start []) = (Inr ''[...]'', ?s1)"
    by code_simp
  have b: "JSON_parse sample_env ''[...]'' = Inr sample_raw"
    by code_simp
  have m: "mset (rev sample_raw) = mset sample_raw"
    by simp
  have d: "\<forall>a\<in>set sample_raw. \<forall>b\<in>set sample_raw.
         localeCompare sample_env (nameWithOwner a) (nameWithOwner b) \<le> 0 \<longrightarrow>
         localeCompare sample_env (nameWithOwner b) (nameWithOwner a) \<le> 0 \<longrightarrow> a = b"
    unfolding lc codeunit_compare_le by (simp add: sample_raw_def)
  have g: "getRepositories sample_env ''acme'' (start []) = (Inr ?out, ?s1)"
    by code_simp
  from listing_sorted_by_localeCompare[OF total trans a b]
  obtain repos where r: "getRepositories sample_env ''acme'' (start []) = (Inr repos, ?s1)"
    "ascending (localeCompare sample_env) repos"
    "\<forall>raws'. mset raws' = mset sample_raw \<longrightarrow>
           (\<forall>a\<in>set sample_raw. \<forall>b\<in>set sample_raw.
               localeCompare sample_env (nameWithOwner a) (nameWithOwner b) \<le> 0 \<longrightarrow>
               localeCompare sample_env (nameWithOwner b) (nameWithOwner a) \<le> 0 \<longrightarrow> a = b) \<longrightarrow>
           sort_by (by_full_name sample_env) (map normalize raws') = repos"
    by blast
  from r(1) g have eq: "repos = ?out" by simp
  have "sort_by (by_full_name sample_env) (map normalize (rev sample_raw)) = ?out"
    using r(3) m d eq by blast
  moreover have "ascending codeunit_compare ?out"
    using r(2) eq lc by simp
  moreover have "fst (getRepositories sample_env ''acme'' (start [])) = Inr ?out"
    using g by simp
  ultimately show ?thesis
    using lc m by (intro conjI)
qed

theorem listing_not_in_codeunit_order:
  "fst (getRepositories collating_env ''acme'' (start []))
     = Inr [\<lparr>name = ''bar'', defaultBranch = ''develop'', full_name = ''acme/bar''\<rparr>,
            \<lparr>name = ''foo'', defaultBranch = ''main'', full_name = ''acme/foo''\<rparr>,
            \<lparr>name = ''New'', defaultBranch = ''main'', full_name = ''acme/New''\<rparr>]
   \<and> \<not> ascending codeunit_compare
        [\<lparr>name = ''bar'', defaultBranch = ''develop'', full_name = ''acme/bar''\<rparr>,
         \<lparr>name = ''foo'', defaultBranch = ''main'', full_name = ''acme/foo''\<rparr>,
         \<lparr>name = ''New'', defaultBranch = ''main'', full_name = ''acme/New''\<rparr>]"
  by code_simp

section \<open>Facts about the task list\<close>

lemma view_command_inject [simp]:
  "view_command owner x = view_command owner y \<longleftrightarrow> x = y"
  by (simp add: view_command_def)

lemma view_command_neq [simp]:
  "view_command owner x \<noteq> sha_command o1 r1 b1"
  "view_command owner x \<noteq> create_command o2 r2 b2 h2"
  "view_command owner x \<noteq> list_command o3"
  "view_command owner x \<noteq> ''gh api user --jq .login''"
  by (simp_all add: view_command_def sha_command_def create_command_def list_command_def)

lemma createBranch_invoked:
  assumes "createBranch env owner repoName branchName s = (r, s1)"
  shows "invoked owner x s1 \<longleftrightarrow> invoked owner x s \<or> x = repoName"
proof -
  obtain r0 t where t: "createBranch_try env owner repoName branchName s = (r0, t)"
    by (cases "createBranch_try env owner repoName branchName s")
  have "cmds s1 = cmds t"
    using assms t by (auto simp: createBranch_def split: sum.splits if_splits)
  moreover have "invoked owner x t \<longleftrightarrow> invoked owner x s \<or> x = repoName"
    using t unfolding createBranch_try_def invoked_def
    by (auto simp: Let_def split: prod.splits sum.splits dest!: exec_frame)
  ultimately show ?thesis
    by (simp add: invoked_def)
qed

lemma branch_task_invoked:
  assumes "snd (branch_task env owner branchName repo) s = (r, s1)"
  shows "invoked owner x s1 \<longleftrightarrow> invoked owner x s \<or> x = name repo"
proof -
  obtain r0 t where t: "createBranch env owner (name repo) branchName s = (r0, t)"
    by (cases "createBranch env owner (name repo) branchName s")
  have "s1 = t"
    using assms t by (auto simp: branch_task_def split: sum.splits if_splits)
  with createBranch_invoked[OF t] show ?thesis by simp
qed

lemma listr_tasks_Inr:
  "listr_tasks ts s = (Inr u, report, s1) \<Longrightarrow> report = map (\<lambda>(t, _). (t, Completed)) ts"
proof (induction ts arbitrary: s report)
  case Nil
  then show ?case by simp
next
  case (Cons a ts)
  obtain title task where a: "a = (title, task)" by (cases a)
  from Cons.prems a obtain s0 rep where "task s = (Inr (), s0)"
    "listr_tasks ts s0 = (Inr u, rep, s1)" "report = (title, Completed) # rep"
    by (auto split: prod.splits sum.splits)
  with Cons.IH[of s0 rep] a show ?case by simp
qed

lemma listr_tasks_append:
  "listr_tasks (xs @ ys) s =
     (case listr_tasks xs s of
        (Inl e, rep, s1) \<Rightarrow> (Inl e, rep @ map (\<lambda>(t, _). (t, Not_run)) ys, s1)
      | (Inr u, rep, s1) \<Rightarrow>
          (case listr_tasks ys s1 of (r, rep2, s2) \<Rightarrow> (r, rep @ rep2, s2)))"
proof (induction xs arbitrary: s)
  case Nil
  show ?case by (simp split: prod.splits)
next
  case (Cons a xs)
  obtain title task where a: "a = (title, task)" by (cases a)
  show ?case
    unfolding a by (simp add: Cons.IH split: prod.splits sum.splits)
qed

lemma listr_tasks_invoked:
  "listr_tasks (map (branch_task env owner branchName) repos) s = (r, report, s1) \<Longrightarrow>
     invoked owner x s1 \<Longrightarrow> invoked owner x s \<or> x \<in> name ` set repos"
proof (induction repos arbitrary: s report)
  case Nil
  then show ?case by simp
next
  case (Cons a repos)
  obtain r0 s0 where t: "snd (branch_task env owner branchName a) s = (r0, s0)"
    by (cases "snd (branch_task env owner branchName a) s")
  note inv = branch_task_invoked[OF t, of x]
  show ?case
  proof (cases r0)
    case (Inl e)
    with Cons.prems t have "s1 = s0"
      by (cases "branch_task env owner branchName a") auto
    with Cons.prems(2) inv show ?thesis by auto
  next
    case (Inr u)
    with Cons.prems(1) t obtain rep where "listr_tasks (map (branch_task env owner branchName) repos) s0 = (r, rep, s1)"
      by (cases "branch_task env owner branchName a") (auto split: prod.splits)
    from Cons.IH[OF this Cons.prems(2)] inv show ?thesis by auto
  qed
qed

lemma listr_tasks_Inr_invoked:
  "listr_tasks (map (branch_task env owner branchName) repos) s = (Inr u, report, s1) \<Longrightarrow>
     invoked owner x s1 \<longleftrightarrow> invoked owner x s \<or> x \<in> name ` set repos"
proof (induction repos arbitrary: s report)
  case Nil
  then show ?case by simp
next
  case (Cons a repos)
  obtain r0 s0 where t: "snd (branch_task env owner branchName a) s = (r0, s0)"
    by (cases "snd (branch_task env owner branchName a) s")
  note inv = branch_task_invoked[OF t, of x]
  from Cons.prems(1) t obtain rep
    where rest: "listr_tasks (map (branch_task env owner branchName) repos) s0 = (Inr u, rep, s1)"
    by (cases "branch_task env owner branchName a") (auto split: prod.splits sum.splits)
  from Cons.IH[OF rest] inv show ?case by auto
qed

lemma Listr_run_first_failure:
  assumes before: "listr_tasks (map (branch_task env owner branchName) pre) s = (Inr (), rep, s1)"
    and fails: "snd (branch_task env owner branchName r) s1 = (Inl e, s2)"
  shows "Listr_run (map (branch_task env owner branchName) (pre @ r # post)) s
       = (Inl e,
          s2\<lparr>tasks :=
               map (\<lambda>x. (fst (branch_task env owner branchName x), Completed)) pre
               @ (fst (branch_task env owner branchName r), Failed (message e))
               # map (\<lambda>x. (fst (branch_task env owner branchName x), Not_run)) post\<rparr>)"
proof -
  let ?task = "branch_task env owner branchName"
  have rep: "rep = map (\<lambda>x. (fst (?task x), Completed)) pre"
    using listr_tasks_Inr[OF before] by (simp add: case_prod_unfold comp_def)
  have one: "listr_tasks (?task r # map ?task post) s1
      = (Inl e, (fst (?task r), Failed (message e)) # map (\<lambda>x. (fst (?task x), Not_run)) post, s2)"
    using fails by (cases "?task r") (simp add: case_prod_unfold comp_def)
  have "listr_tasks (map ?task (pre @ r # post)) s
      = (Inl e, rep @ (fst (?task r), Failed (message e)) # map (\<lambda>x. (fst (?task x), Not_run)) post, s2)"
    using before one by (simp add: listr_tasks_append)
  then show ?thesis
    unfolding Listr_run_def rep by simp
qed

section \<open>A failure in one repository and the other repositories\<close>

text \<open>
  C1, as the code has it. The tasks run one after the other, in the order of the chosen
  list, and the task list is built without options, so the first task that throws ends
  the run of the list. If the tasks of the repositories before \<open>r\<close> complete and the task
  of \<open>r\<close> throws (the branch exists already, or its creation failed), then the run of
  the list is rejected with that error; the repositories before \<open>r\<close> are recorded as
  completed and \<open>r\<close> as failed with the message of its error: a failure does not undo
  or prevent what was recorded for the repositories before it. The repositories after
  \<open>r\<close> are recorded as not run, and \<open>createBranch\<close> is not invoked for them.
\<close>

theorem failure_stops_later_tasks:
  assumes before: "listr_tasks (map (branch_task env owner branchName) pre) s = (Inr (), rep, s1)"
    and fails: "snd (branch_task env owner branchName r) s1 = (Inl e, s2)"
  shows "Listr_run (map (branch_task env owner branchName) (pre @ r # post)) s
       = (Inl e,
          s2\<lparr>tasks :=
               map (\<lambda>x. (fst (branch_task env owner branchName x), Completed)) pre
               @ (fst (branch_task env owner branchName r), Failed (message e))
               # map (\<lambda>x. (fst (branch_task env owner branchName x), Not_run)) post\<rparr>)
     \<and> (\<forall>x\<in>set (pre @ [r]). invoked owner (name x) s2)
     \<and> (\<forall>x\<in>set post. name x \<notin> name ` set (pre @ [r]) \<longrightarrow> \<not> invoked owner (name x) s
            \<longrightarrow> \<not> invoked owner (name x) s2)"
proof -
  let ?task = "branch_task env owner branchName"
  have run: "Listr_run (map ?task (pre @ r # post)) s
       = (Inl e, s2\<lparr>tasks := map (\<lambda>x. (fst (?task x), Completed)) pre
               @ (fst (?task r), Failed (message e))
               # map (\<lambda>x. (fst (?task x), Not_run)) post\<rparr>)"
    by (rule Listr_run_first_failure[OF before fails])
  have inv1: "invoked owner x s1 \<longleftrightarrow> invoked owner x s \<or> x \<in> name ` set pre" for x
    by (rule listr_tasks_Inr_invoked[OF before])
  have inv2: "invoked owner x s2 \<longleftrightarrow> invoked owner x s1 \<or> x = name r" for x
    by (rule branch_task_invoked[OF fails])
  have earlier: "\<forall>x\<in>set (pre @ [r]). invoked owner (name x) s2"
    using inv1 inv2 by auto
  have later: "\<forall>x\<in>set post. name x \<notin> name ` set (pre @ [r]) \<longrightarrow> \<not> invoked owner (name x) s
            \<longrightarrow> \<not> invoked owner (name x) s2"
    using inv1 inv2 by auto
  from run earlier later show ?thesis
    by (intro conjI)
qed

theorem failure_stops_later_tasks_witness:
  "listr_tasks (map (branch_task sample_env ''acme'' ''x'')
        [\<lparr>name = ''New'', defaultBranch = ''main'', full_name = ''acme/New''\<rparr>]) (start [''bar''])
     = (Inr (), [(''Creating branch in New'', Completed)],
        \<lparr>world = [''New'', ''bar''],
         cmds = [view_command ''acme'' ''New'', sha_command ''acme'' ''New'' ''main'',
                 create_command ''acme'' ''New'' ''x'' ''c0ffee''],
         console = [], tasks = []\<rparr>)
   \<and> fst (Listr_run (map (branch_task sample_env ''acme'' ''x'')
        [\<lparr>name = ''New'', defaultBranch = ''main'', full_name = ''acme/New''\<rparr>,
         \<lparr>name = ''bar'', defaultBranch = ''develop'', full_name = ''acme/bar''\<rparr>,
         \<lparr>name = ''foo'', defaultBranch = ''main'', full_name = ''acme/foo''\<rparr>]) (start [''bar'']))
     = Inl (Error ''Branch already exists'')
   \<and> tasks (snd (Listr_run (map (branch_task sample_env ''acme'' ''x'')
        [\<lparr>name = ''New'', defaultBranch = ''main'', full_name = ''acme/New''\<rparr>,
         \<lparr>name = ''bar'', defaultBranch = ''develop'', full_name = ''acme/bar''\<rparr>,
         \<lparr>name = ''foo'', defaultBranch = ''main'', full_name = ''acme/foo''\<rparr>]) (start [''bar''])))
     = [(''Creating branch in New'', Completed),
        (''Creating branch in bar'', Failed ''Branch already exists''),
        (''Creating branch in foo'', Not_run)]
   \<and> invoked ''acme'' ''New''
        \<lparr>world = [''New'', ''bar''],
         cmds = [view_command ''acme'' ''New'', sha_command ''acme'' ''New'' ''main'',
                 create_command ''acme'' ''New'' ''x'' ''c0ffee'',
                 view_command ''acme'' ''bar'', sha_command ''acme'' ''bar'' ''trunk'',
                 create_command ''acme'' ''bar'' ''x'' ''c0ffee''],
         console = [], tasks = []\<rparr>
   \<and> \<not> invoked ''acme'' ''foo''
        \<lparr>world = [''New'', ''bar''],
         cmds = [view_command ''acme'' ''New'', sha_command ''acme'' ''New'' ''main'',
                 create_command ''acme'' ''New'' ''x'' ''c0ffee'',
                 view_command ''acme'' ''bar'', sha_command ''acme'' ''bar'' ''trunk'',
                 create_command ''acme'' ''bar'' ''x'' ''c0ffee''],
         console = [], tasks = []\<rparr>"
proof -
  let ?New = "\<lparr>name = ''New'', defaultBranch = ''main'', full_name = ''acme/New''\<rparr>"
  let ?bar = "\<lparr>name = ''bar'', defaultBranch = ''develop'', full_name = ''acme/bar''\<rparr>"
  let ?foo = "\<lparr>name = ''foo'', defaultBranch = ''main'', full_name = ''acme/foo''\<rparr>"
  let ?s1 = "\<lparr>world = [''New'', ''bar''],
         cmds = [view_command ''acme'' ''New'', sha_command ''acme'' ''New'' ''main'',
                 create_command ''acme'' ''New'' ''x'' ''c0ffee''],
         console = [], tasks = []\<rparr>"
  let ?s2 = "\<lparr>world = [''New'', ''bar''],
         cmds = [view_command ''acme'' ''New'', sha_command ''acme'' ''New'' ''main'',
                 create_command ''acme'' ''New'' ''x'' ''c0ffee'',
                 view_command ''acme'' ''bar'', sha_command ''acme'' ''bar'' ''trunk'',
                 create_command ''acme'' ''bar'' ''x'' ''c0ffee''],
         console = [], tasks = []\<rparr>"
  have a: "listr_tasks (map (branch_task sample_env ''acme'' ''x'') [?New]) (start [''bar''])
             = (Inr (), [(''Creating branch in New'', Completed)], ?s1)"
    by code_simp
  have b: "snd (branch_task sample_env ''acme'' ''x'' ?bar) ?s1
             = (Inl (Error ''Branch already exists''), ?s2)"
    by code_simp
  have t: "fst (branch_task sample_env ''acme'' ''x'' ?New) = ''Creating branch in New''"
    "fst (branch_task sample_env ''acme'' ''x'' ?bar) = ''Creating branch in bar''"
    "fst (branch_task sample_env ''acme'' ''x'' ?foo) = ''Creating branch in foo''"
    by code_simp+
  have m: "message (Error ''Branch already exists'') = ''Branch already exists''"
    by (simp add: Error_def)
  have n: "name ?foo \<notin> name ` set ([?New] @ [?bar])"
    by simp
  have i: "\<not> invoked ''acme'' (name ?foo) (start [''bar''])"
    by (simp add: invoked_def start_def)
  note inst = failure_stops_later_tasks[OF a b, of "[?foo]"]
  have "fst (Listr_run (map (branch_task sample_env ''acme'' ''x'') [?New, ?bar, ?foo]) (start [''bar'']))
      = Inl (Error ''Branch already exists'')"
    using inst[THEN conjunct1] by simp
  moreover have "tasks (snd (Listr_run (map (branch_task sample_env ''acme'' ''x'') [?New, ?bar, ?foo])
         (start [''bar''])))
      = [(''Creating branch in New'', Completed),
         (''Creating branch in bar'', Failed ''Branch already exists''),
         (''Creating branch in foo'', Not_run)]"
    using inst[THEN conjunct1] t m by simp
  moreover have "invoked ''acme'' ''New'' ?s2"
    using inst[THEN conjunct2, THEN conjunct1] by simp
  moreover have "\<not> invoked ''acme'' ''foo'' ?s2"
    using inst[THEN conjunct2, THEN conjunct2] n i by simp
  ultimately show ?thesis
    using a by (intro conjI)
qed

theorem failure_prevents_later_repository:
  "tasks (snd (run sample_env ''x'' (Some [''bar'', ''foo'']) (start [''bar''])))
     = [(''Creating branch in bar'', Failed ''Branch already exists''),
        (''Creating branch in foo'', Not_run)]
   \<and> \<not> invoked ''acme'' ''foo'' (snd (run sample_env ''x'' (Some [''bar'', ''foo'']) (start [''bar''])))
   \<and> world (snd (run sample_env ''x'' (Some [''bar'', ''foo'']) (start [''bar'']))) = [''bar'']
   \<and> tasks (snd (run sample_env ''x'' (Some [''foo'']) (start [''bar''])))
     = [(''Creating branch in foo'', Completed)]"
  by code_simp

lemma chalk_yellow_not_cancelled:
  "chalk_yellow env ''Branch already exists'' \<noteq> ''Prompt was cancelled''"
  by (simp add: chalk_yellow_def chalk_def)

section \<open>The exit code after a failure in one repository\<close>

text \<open>
  C3, as the code has it. Once the owner is resolved, the listing has succeeded and the
  selection is not empty: if every task completes, \<open>run\<close> prints \<open>All done\<close> and returns,
  so the process ends with code 0. If the tasks of the repositories before \<open>r\<close> complete
  and \<open>createBranch\<close> fails for \<open>r\<close> with an error \<open>e\<close> (the dedicated error when the branch
  exists already, any other error otherwise) whose message is not \<open>Prompt was cancelled\<close>,
  then the error of the task is printed after \<open>Error:\<close>, the task of \<open>r\<close> is recorded as
  failed, and the process exits with code 1.
\<close>

theorem failing_repository_exits_1:
  assumes owner: "validateAndGetOwner env s = (Inr owner, s1)"
    and listing: "getRepositories env owner (print (Fetching owner) s1) = (Inr allRepos, s2)"
    and sel: "select env allRepos repoNames s2 = (Inr repos, s3)"
    and ne: "repos \<noteq> []"
  shows "(\<forall>rep t.
            listr_tasks (map (branch_task env owner branchName) repos)
                (print (Creating branchName (length repos)) s3) = (Inr (), rep, t) \<longrightarrow>
            run env branchName repoNames s = (Returned, print All_done (t\<lparr>tasks := rep\<rparr>))
            \<and> exit_code (fst (run env branchName repoNames s)) = 0)
     \<and> (\<forall>pre r post rep t1 e t2.
            repos = pre @ r # post \<longrightarrow>
            listr_tasks (map (branch_task env owner branchName) pre)
                (print (Creating branchName (length repos)) s3) = (Inr (), rep, t1) \<longrightarrow>
            createBranch env owner (name r) branchName t1 = (Inl e, t2) \<longrightarrow>
            message e \<noteq> ''Prompt was cancelled'' \<longrightarrow>
            exit_code (fst (run env branchName repoNames s)) = 1
            \<and> last (console (snd (run env branchName repoNames s)))
                = Error_reported
                    (if includes_str (message e) ''already exists''
                     then Error (chalk_yellow env ''Branch already exists'') else e)
            \<and> (fst (branch_task env owner branchName r),
                 Failed (if includes_str (message e) ''already exists''
                         then chalk_yellow env ''Branch already exists'' else message e))
                \<in> set (tasks (snd (run env branchName repoNames s))))"
proof (intro conjI allI impI)
  fix rep t
  assume "listr_tasks (map (branch_task env owner branchName) repos)
                (print (Creating branchName (length repos)) s3) = (Inr (), rep, t)"
  then have "run env branchName repoNames s = (Returned, print All_done (t\<lparr>tasks := rep\<rparr>))"
    using owner listing sel ne
    by (simp add: run_def run_try_def run_selected_def Listr_run_def)
  then show "run env branchName repoNames s = (Returned, print All_done (t\<lparr>tasks := rep\<rparr>))"
    and "exit_code (fst (run env branchName repoNames s)) = 0"
    by (simp_all add: exit_code_def)
next
  fix pre r post rep t1 e t2
  let ?task = "branch_task env owner branchName"
  let ?e = "if includes_str (message e) ''already exists''
            then Error (chalk_yellow env ''Branch already exists'') else e"
  let ?rec = "map (\<lambda>x. (fst (?task x), Completed)) pre
               @ (fst (?task r), Failed (message ?e))
               # map (\<lambda>x. (fst (?task x), Not_run)) post"
  assume split: "repos = pre @ r # post"
    and before: "listr_tasks (map ?task pre) (print (Creating branchName (length repos)) s3)
                   = (Inr (), rep, t1)"
    and fails: "createBranch env owner (name r) branchName t1 = (Inl e, t2)"
    and msg: "message e \<noteq> ''Prompt was cancelled''"
  have task: "snd (?task r) t1 = (Inl ?e, t2)"
    using fails by (simp add: branch_task_def)
  have lr: "Listr_run (map ?task repos) (print (Creating branchName (length repos)) s3)
      = (Inl ?e, t2\<lparr>tasks := ?rec\<rparr>)"
    unfolding split by (rule Listr_run_first_failure[OF before[unfolded split] task])
  have m: "message ?e \<noteq> ''Prompt was cancelled''"
    using msg chalk_yellow_not_cancelled[of env] by (simp add: Error_def)
  have run: "run env branchName repoNames s
      = (Exited 1, print (Error_reported ?e) (t2\<lparr>tasks := ?rec\<rparr>))"
    using owner listing sel ne lr m
    by (simp add: run_def run_try_def run_selected_def)
  show "exit_code (fst (run env branchName repoNames s)) = 1"
    by (simp add: run exit_code_def)
  show "last (console (snd (run env branchName repoNames s))) = Error_reported ?e"
    by (simp add: run)
  have "message ?e = (if includes_str (message e) ''already exists''
                         then chalk_yellow env ''Branch already exists'' else message e)"
    by (simp add: Error_def)
  then show "(fst (?task r),
                 Failed (if includes_str (message e) ''already exists''
                         then chalk_yellow env ''Branch already exists'' else message e))
                \<in> set (tasks (snd (run env branchName repoNames s)))"
    by (simp add: run)
qed

theorem failing_repository_exits_1_witness:
  "validateAndGetOwner sample_env (start [''bar''])
     = (Inr ''acme'',
        \<lparr>world = [''bar''], cmds = [''gh api user --jq .login''], console = [], tasks = []\<rparr>)
   \<and> fst (select sample_env (sort_by (by_full_name sample_env) (map normalize sample_raw))
            (Some [''foo''])
            \<lparr>world = [''bar''], cmds = [''gh api user --jq .login'', list_command ''acme''],
             console = [Fetching ''acme''], tasks = []\<rparr>)
     = Inr [\<lparr>name = ''foo'', defaultBranch = ''main'', full_name = ''acme/foo''\<rparr>]
   \<and> exit_code (fst (run sample_env ''x'' (Some [''foo'']) (start [''bar'']))) = 0
   \<and> fst (createBranch sample_env ''acme'' ''bar'' ''x''
        \<lparr>world = [''bar''], cmds = [''gh api user --jq .login'', list_command ''acme''],
         console = [Fetching ''acme'', Creating ''x'' 1], tasks = []\<rparr>)
     = Inl (Error ''Branch already exists'')
   \<and> message (Error ''Branch already exists'') \<noteq> ''Prompt was cancelled''
   \<and> exit_code (fst (run sample_env ''x'' (Some [''bar'']) (start [''bar'']))) = 1
   \<and> last (console (snd (run sample_env ''x'' (Some [''bar'']) (start [''bar'']))))
     = Error_reported (Error ''Branch already exists'')
   \<and> (''Creating branch in bar'', Failed ''Branch already exists'')
       \<in> set (tasks (snd (run sample_env ''x'' (Some [''bar'']) (start [''bar'']))))"
proof -
  let ?bar = "\<lparr>name = ''bar'', defaultBranch = ''develop'', full_name = ''acme/bar''\<rparr>"
  let ?foo = "\<lparr>name = ''foo'', defaultBranch = ''main'', full_name = ''acme/foo''\<rparr>"
  let ?s1 = "\<lparr>world = [''bar''], cmds = [''gh api user --jq .login''], console = [], tasks = []\<rparr>"
  let ?s2 = "\<lparr>world = [''bar''], cmds = [''gh api user --jq .login'', list_command ''acme''],
             console = [Fetching ''acme''], tasks = []\<rparr>"
  let ?s4 = "\<lparr>world = [''bar''], cmds = [''gh api user --jq .login'', list_command ''acme''],
             console = [Fetching ''acme'', Creating ''x'' 1], tasks = []\<rparr>"
  let ?t = "\<lparr>world = [''foo'', ''bar''],
      cmds = [''gh api user --jq .login'', list_command ''acme'', view_command ''acme'' ''foo'',
              sha_command ''acme'' ''foo'' ''trunk'', create_command ''acme'' ''foo'' ''x'' ''c0ffee''],
      console = [Fetching ''acme'', Creating ''x'' 1], tasks = []\<rparr>"
  let ?t2 = "\<lparr>world = [''bar''],
      cmds = [''gh api user --jq .login'', list_command ''acme'', view_command ''acme'' ''bar'',
              sha_command ''acme'' ''bar'' ''trunk'', create_command ''acme'' ''bar'' ''x'' ''c0ffee''],
      console = [Fetching ''acme'', Creating ''x'' 1], tasks = []\<rparr>"
  let ?all = "sort_by (by_full_name sample_env) (map normalize sample_raw)"
  let ?e = "Error ''Branch already exists''"
  have a: "validateAndGetOwner sample_env (start [''bar'']) = (Inr ''acme'', ?s1)"
    by code_simp
  have b: "getRepositories sample_env ''acme'' (print (Fetching ''acme'') ?s1) = (Inr ?all, ?s2)"
    by code_simp
  have c1: "select sample_env ?all (Some [''foo'']) ?s2 = (Inr [?foo], ?s2)"
    by code_simp
  have c2: "select sample_env ?all (Some [''bar'']) ?s2 = (Inr [?bar], ?s2)"
    by code_simp
  have p1: "print (Creating ''x'' (length [?foo])) ?s2 = ?s4"
    and p2: "print (Creating ''x'' (length [?bar])) ?s2 = ?s4"
    by (simp_all add: print_def)
  have d1: "listr_tasks (map (branch_task sample_env ''acme'' ''x'') [?foo]) ?s4
      = (Inr (), [(''Creating branch in foo'', Completed)], ?t)"
    by code_simp
  have d2: "listr_tasks (map (branch_task sample_env ''acme'' ''x'') []) ?s4 = (Inr (), [], ?s4)"
    by simp
  have f: "createBranch sample_env ''acme'' ''bar'' ''x'' ?s4 = (Inl ?e, ?t2)"
    by code_simp
  have m: "message ?e \<noteq> ''Prompt was cancelled''"
    by (simp add: Error_def)
  have i: "includes_str (message ?e) ''already exists''"
    by code_simp
  have y: "chalk_yellow sample_env ''Branch already exists'' = ''Branch already exists''"
    by code_simp
  have t: "fst (branch_task sample_env ''acme'' ''x'' ?bar) = ''Creating branch in bar''"
    by code_simp
  have ne: "[?foo] \<noteq> []" "[?bar] \<noteq> []"
    by simp_all
  note ok = failing_repository_exits_1[OF a b c1 ne(1), of "''x''", THEN conjunct1,
      THEN spec, THEN spec, THEN mp, OF d1[folded p1]]
  note ko = failing_repository_exits_1[OF a b c2 ne(2), of "''x''", THEN conjunct2,
      THEN spec, THEN spec, THEN spec, THEN spec, THEN spec, THEN spec, THEN spec,
      of "[]" ?bar "[]" "[]" ?s4 ?e ?t2]
  have ko': "exit_code (fst (run sample_env ''x'' (Some [''bar'']) (start [''bar'']))) = 1
     \<and> last (console (snd (run sample_env ''x'' (Some [''bar'']) (start [''bar'']))))
         = Error_reported ?e
     \<and> (''Creating branch in bar'', Failed ''Branch already exists'')
         \<in> set (tasks (snd (run sample_env ''x'' (Some [''bar'']) (start [''bar'']))))"
    using ko d2 f m i y t p2 by simp
  have "exit_code (fst (run sample_env ''x'' (Some [''foo'']) (start [''bar'']))) = 0"
    using ok by (rule conjunct2)
  moreover have "fst (select sample_env ?all (Some [''foo'']) ?s2) = Inr [?foo]"
    using c1 by simp
  moreover have "fst (createBranch sample_env ''acme'' ''bar'' ''x'' ?s4) = Inl ?e"
    using f by simp
  ultimately show ?thesis
    using a m ko' by (intro conjI) simp_all
qed

theorem already_exists_exits_1:
  "main sample_env ''x'' [''bar''] (start [''bar''])
     = (Exited 1,
        \<lparr>world = [''bar''],
         cmds = [''gh --version'', ''gh api user --jq .login'', list_command ''acme'',
                 view_command ''acme'' ''bar'', sha_command ''acme'' ''bar'' ''trunk'',
                 create_command ''acme'' ''bar'' ''x'' ''c0ffee''],
         console = [Fetching ''acme'', Creating ''x'' 1,
                    Error_reported (Error ''Branch already exists'')],
         tasks = [(''Creating branch in bar'', Failed ''Branch already exists'')]\<rparr>)
   \<and> exit_code (fst (main sample_env ''x'' [''bar''] (start [''bar'']))) = 1"
  by code_simp

section \<open>Facts about the console and the commands of a run\<close>

lemma includes_str_append_left: "includes_str s n \<Longrightarrow> includes_str (a @ s) n"
  by (induction a) simp_all

lemma includes_str_join: "l \<in> set xs \<Longrightarrow> includes_str (join sep xs) l"
proof (induction sep xs rule: join.induct)
  case (1 sep)
  then show ?case by simp
next
  case (2 sep x)
  then show ?case using includes_str_prefix[of x "[]"] by simp
next
  case (3 sep x y ys)
  show ?case
  proof (cases "l = x")
    case True
    then show ?thesis using includes_str_prefix[of x "sep @ join sep (y # ys)"] by simp
  next
    case False
    with 3 have "includes_str (join sep (y # ys)) l" by simp
    then have "includes_str ((x @ sep) @ join sep (y # ys)) l"
      by (rule includes_str_append_left)
    then show ?thesis by simp
  qed
qed

lemma ticked_subset:
  "set (map snd (filter (\<lambda>(i, repo). i \<in> set ticked) (zip [0..<length R] R))) \<subseteq> set R"
  by (auto dest: set_zip_rightD)

lemma selectRepositories_subset:
  assumes "selectRepositories env R s = (Inr sel, s1)"
  shows "set sel \<subseteq> set R"
proof -
  from assms obtain ticked
    where "sel = map snd (filter (\<lambda>(i, repo). i \<in> set ticked) (zip [0..<length R] R))"
    by (auto simp: selectRepositories_def split: prod.splits sum.splits)
  then show ?thesis
    using ticked_subset[of ticked R] by simp
qed

lemma select_subset:
  assumes "select env R names s = (Inr sel, s1)"
  shows "set sel \<subseteq> set R"
proof (cases "\<exists>L. names = Some L \<and> L \<noteq> []")
  case True
  then obtain L where "names = Some L" "L \<noteq> []" by blast
  with assms have "sel = selectedRepos R L" by (simp add: select_def)
  then show ?thesis by (auto simp: selectedRepos_def)
next
  case False
  then have "select env R names s = selectRepositories env R s"
    by (cases names) (auto simp: select_def)
  with assms selectRepositories_subset[of env R s sel s1] show ?thesis by simp
qed

lemma createBranch_console: "createBranch env owner repoName branchName s = (r, t) \<Longrightarrow> console t = console s"
  unfolding createBranch_def createBranch_try_def
  by (auto simp: Let_def split: prod.splits sum.splits if_splits dest!: exec_frame)

lemma branch_task_console:
  "snd (branch_task env owner branchName repo) s = (r, t) \<Longrightarrow> console t = console s"
  by (auto simp: branch_task_def split: prod.splits sum.splits if_splits dest: createBranch_console)

lemma listr_tasks_console:
  "listr_tasks (map (branch_task env owner branchName) repos) s = (r, report, t) \<Longrightarrow>
     console t = console s"
proof (induction repos arbitrary: s report)
  case Nil
  then show ?case by simp
next
  case (Cons a repos)
  obtain r0 s0 where t: "snd (branch_task env owner branchName a) s = (r0, s0)"
    by (cases "snd (branch_task env owner branchName a) s")
  note c = branch_task_console[OF t]
  show ?case
  proof (cases r0)
    case (Inl e)
    with Cons.prems t have "t = s0"
      by (cases "branch_task env owner branchName a") auto
    with c show ?thesis by simp
  next
    case (Inr u)
    with Cons.prems t obtain rep
      where "listr_tasks (map (branch_task env owner branchName) repos) s0 = (r, rep, t)"
      by (cases "branch_task env owner branchName a") (auto split: prod.splits)
    from Cons.IH[OF this] c show ?thesis by simp
  qed
qed

lemma run_selected_console:
  "run_selected env owner branchName repos s = (r, t) \<Longrightarrow> \<exists>evs. console t = console s @ evs"
  unfolding run_selected_def Listr_run_def
  by (auto split: if_splits prod.splits sum.splits dest!: listr_tasks_console)

lemma run_selected_invoked:
  "run_selected env owner branchName repos s = (r, t) \<Longrightarrow> invoked owner x t \<Longrightarrow>
     invoked owner x s \<or> x \<in> name ` set repos"
  unfolding run_selected_def Listr_run_def
  by (auto simp: invoked_def split: if_splits prod.splits sum.splits
        dest!: listr_tasks_invoked[of env owner branchName repos _ _ _ _ x, unfolded invoked_def])

lemma exec_console_update:
  "exec env c (console_update f s) = (case exec env c s of (r, t) \<Rightarrow> (r, console_update f t))"
  by (simp add: exec_def split: prod.splits sum.splits)

lemma createBranch_try_console_update:
  "createBranch_try env owner repoName branchName (console_update f s)
     = (case createBranch_try env owner repoName branchName s of (r, t) \<Rightarrow> (r, console_update f t))"
  unfolding createBranch_try_def
  by (simp add: exec_console_update Let_def split: prod.splits sum.splits)

lemma createBranch_console_update:
  "createBranch env owner repoName branchName (console_update f s)
     = (case createBranch env owner repoName branchName s of (r, t) \<Rightarrow> (r, console_update f t))"
  unfolding createBranch_def
  by (simp add: createBranch_try_console_update split: prod.splits sum.splits)

lemma branch_task_console_update:
  "snd (branch_task env owner branchName repo) (console_update f s)
     = (case snd (branch_task env owner branchName repo) s of (r, t) \<Rightarrow> (r, console_update f t))"
  unfolding branch_task_def
  by (simp add: createBranch_console_update split: prod.splits sum.splits)

lemma listr_tasks_console_update:
  "listr_tasks (map (branch_task env owner branchName) repos) (console_update f s)
     = (case listr_tasks (map (branch_task env owner branchName) repos) s of
          (r, report, t) \<Rightarrow> (r, report, console_update f t))"
proof (induction repos arbitrary: s)
  case Nil
  show ?case by simp
next
  case (Cons a repos)
  obtain title task where a: "branch_task env owner branchName a = (title, task)"
    by (cases "branch_task env owner branchName a")
  have t: "task (console_update f s) = (case task s of (r, t) \<Rightarrow> (r, console_update f t))" for s
    using branch_task_console_update[of env owner branchName a f s] a by simp
  show ?case
    by (simp add: a t Cons.IH split: prod.splits sum.splits)
qed

lemma run_selected_console_update:
  "fst (run_selected env owner branchName repos (console_update f s))
       = fst (run_selected env owner branchName repos s)
   \<and> world (snd (run_selected env owner branchName repos (console_update f s)))
       = world (snd (run_selected env owner branchName repos s))
   \<and> cmds (snd (run_selected env owner branchName repos (console_update f s)))
       = cmds (snd (run_selected env owner branchName repos s))
   \<and> tasks (snd (run_selected env owner branchName repos (console_update f s)))
       = tasks (snd (run_selected env owner branchName repos s))"
proof -
  let ?ts = "map (branch_task env owner branchName) repos"
  obtain r rep t where l: "listr_tasks ?ts s = (r, rep, t)"
    by (cases "listr_tasks ?ts s")
  have p: "print e (console_update g s) = console_update (\<lambda>c. g c @ [e]) s" for e g
    by (simp add: print_def)
  have q: "print e s = console_update (\<lambda>c. c @ [e]) s" for e
    by (simp add: print_def)
  show ?thesis
    unfolding run_selected_def Listr_run_def p q listr_tasks_console_update
    by (simp add: l split: sum.splits)
qed

lemma warn_not_found_console_update:
  "\<exists>f. warn_not_found R L s = console_update f s"
proof (cases "length (notFound R L) > 0")
  case True
  then have "warn_not_found R L s
      = console_update (\<lambda>c. c @ [Repositories_not_found (join '', '' (notFound R L))]) s"
    by (simp add: warn_not_found_def print_def)
  then show ?thesis by blast
next
  case False
  then have "warn_not_found R L s = console_update (\<lambda>c. c) s"
    by (simp add: warn_not_found_def)
  then show ?thesis by blast
qed

section \<open>The repositories acted upon\<close>

text \<open>
  C8. Once the owner is resolved and the listing has succeeded, every repository for
  which \<open>createBranch\<close> is invoked during the run is a repository of the listing. A name
  given on the command line that no repository of the listing has is printed in the
  warning \<open>Repositories not found\<close>, and it does not end the run: the run goes on with
  the repositories that matched, and apart from the console its result (the error or
  normal end, the world, the commands run, the recorded tasks) and its exit status are
  those of the run over the matched repositories alone.
\<close>

theorem acted_on_subset_of_listing:
  assumes owner: "validateAndGetOwner env s = (Inr owner, s1)"
    and listing: "getRepositories env owner (print (Fetching owner) s1) = (Inr allRepos, s2)"
  shows "(\<forall>x. invoked owner x (snd (run env branchName repoNames s)) \<longrightarrow>
            invoked owner x s \<or> x \<in> name ` set allRepos)
     \<and> (\<forall>L l. repoNames = Some L \<longrightarrow> l \<in> set L \<longrightarrow> l \<notin> name ` set allRepos \<longrightarrow>
            Repositories_not_found (join '', '' (notFound allRepos L))
              \<in> set (console (snd (run env branchName repoNames s)))
            \<and> includes_str (join '', '' (notFound allRepos L)) l)
     \<and> (\<forall>L. repoNames = Some L \<longrightarrow> L \<noteq> [] \<longrightarrow>
            fst (run_try env branchName repoNames s)
              = fst (run_selected env owner branchName (selectedRepos allRepos L) s2)
            \<and> world (snd (run_try env branchName repoNames s))
              = world (snd (run_selected env owner branchName (selectedRepos allRepos L) s2))
            \<and> cmds (snd (run_try env branchName repoNames s))
              = cmds (snd (run_selected env owner branchName (selectedRepos allRepos L) s2))
            \<and> tasks (snd (run_try env branchName repoNames s))
              = tasks (snd (run_selected env owner branchName (selectedRepos allRepos L) s2))
            \<and> fst (run env branchName repoNames s)
              = (case fst (run_selected env owner branchName (selectedRepos allRepos L) s2) of
                   Inr u \<Rightarrow> Returned
                 | Inl e \<Rightarrow> if message e = ''Prompt was cancelled'' then Exited 0 else Exited 1))"
proof (intro conjI allI impI)
  have i1: "invoked owner x s1 \<longleftrightarrow> invoked owner x s" for x
    using validateAndGetOwner_frame[OF owner] by (auto simp: invoked_def)
  have i2: "invoked owner x s2 \<longleftrightarrow> invoked owner x s" for x
    using getRepositories_frame[OF listing] i1[of x] by (auto simp: invoked_def)
  obtain rs s3 where sel: "select env allRepos repoNames s2 = (rs, s3)"
    by (cases "select env allRepos repoNames s2")
  have i3: "invoked owner x s3 \<longleftrightarrow> invoked owner x s" for x
    using select_frame[OF sel] i2[of x] by (simp add: invoked_def)
  fix x
  assume inv: "invoked owner x (snd (run env branchName repoNames s))"
  show "invoked owner x s \<or> x \<in> name ` set allRepos"
  proof (cases rs)
    case (Inl e)
    then have "cmds (snd (run env branchName repoNames s)) = cmds s3"
      using owner listing sel by (simp add: run_def run_try_def)
    with inv i3[of x] show ?thesis by (simp add: invoked_def)
  next
    case (Inr repos)
    obtain r t where rs: "run_selected env owner branchName repos s3 = (r, t)"
      by (cases "run_selected env owner branchName repos s3")
    have "run_try env branchName repoNames s = (r, t)"
      using owner listing sel Inr rs by (simp add: run_try_def)
    then have "cmds (snd (run env branchName repoNames s)) = cmds t"
      by (simp add: run_def split: sum.splits)
    with inv have "invoked owner x t" by (simp add: invoked_def)
    from run_selected_invoked[OF rs this] have "invoked owner x s3 \<or> x \<in> name ` set repos" .
    moreover have "set repos \<subseteq> set allRepos"
      using select_subset[of env allRepos repoNames s2 repos s3] sel Inr by simp
    ultimately show ?thesis using i3[of x] by auto
  qed
next
  fix L l
  assume names: "repoNames = Some L" and l: "l \<in> set L" "l \<notin> name ` set allRepos"
  from l have ne: "L \<noteq> []" by auto
  from l have nf: "l \<in> set (notFound allRepos L)" by (simp add: notFound_filter)
  then have nf0: "notFound allRepos L \<noteq> []" by auto
  let ?w = "Repositories_not_found (join '', '' (notFound allRepos L))"
  let ?s3 = "warn_not_found allRepos L s2"
  have w: "?w \<in> set (console ?s3)"
    using warn_not_found_console[OF nf0, of s2] by simp
  obtain r t where rs: "run_selected env owner branchName (selectedRepos allRepos L) ?s3 = (r, t)"
    by (cases "run_selected env owner branchName (selectedRepos allRepos L) ?s3")
  have rt: "run_try env branchName repoNames s = (r, t)"
    using owner listing names select_named[OF ne, of env allRepos s2] rs by (simp add: run_try_def)
  from run_selected_console[OF rs] w have "?w \<in> set (console t)" by auto
  then show "?w \<in> set (console (snd (run env branchName repoNames s)))"
    using rt by (simp add: run_def split: sum.splits)
  show "includes_str (join '', '' (notFound allRepos L)) l"
    using nf by (rule includes_str_join)
next
  fix L
  assume names: "repoNames = Some L" and ne: "L \<noteq> []"
  let ?sel = "selectedRepos allRepos L"
  obtain f where f: "warn_not_found allRepos L s2 = console_update f s2"
    using warn_not_found_console_update[of allRepos L s2] by blast
  have rt: "run_try env branchName repoNames s
      = run_selected env owner branchName ?sel (console_update f s2)"
    using owner listing names select_named[OF ne, of env allRepos s2] f by (simp add: run_try_def)
  note cu = run_selected_console_update[of env owner branchName ?sel f s2]
  show "fst (run_try env branchName repoNames s) = fst (run_selected env owner branchName ?sel s2)"
    using rt cu by simp
  show "world (snd (run_try env branchName repoNames s))
      = world (snd (run_selected env owner branchName ?sel s2))"
    using rt cu by simp
  show "cmds (snd (run_try env branchName repoNames s))
      = cmds (snd (run_selected env owner branchName ?sel s2))"
    using rt cu by simp
  show "tasks (snd (run_try env branchName repoNames s))
      = tasks (snd (run_selected env owner branchName ?sel s2))"
    using rt cu by simp
  have "fst (run env branchName repoNames s)
      = (case fst (run_try env branchName repoNames s) of
           Inr u \<Rightarrow> Returned
         | Inl e \<Rightarrow> if message e = ''Prompt was cancelled'' then Exited 0 else Exited 1)"
    by (simp add: run_def split: prod.splits sum.splits)
  then show "fst (run env branchName repoNames s)
      = (case fst (run_selected env owner branchName ?sel s2) of
           Inr u \<Rightarrow> Returned
         | Inl e \<Rightarrow> if message e = ''Prompt was cancelled'' then Exited 0 else Exited 1)"
    using rt cu by simp
qed

theorem acted_on_subset_of_listing_witness:
  "validateAndGetOwner sample_env (start [])
     = (Inr ''acme'', \<lparr>world = [], cmds = [''gh api user --jq .login''], console = [], tasks = []\<rparr>)
   \<and> invoked ''acme'' ''foo'' (snd (run sample_env ''x'' (Some [''foo'', ''baz'']) (start [])))
   \<and> ''foo'' \<in> name ` set (sort_by (by_full_name sample_env) (map normalize sample_raw))
   \<and> ''baz'' \<in> set [''foo'', ''baz'']
   \<and> ''baz'' \<notin> name ` set (sort_by (by_full_name sample_env) (map normalize sample_raw))
   \<and> Repositories_not_found ''baz''
       \<in> set (console (snd (run sample_env ''x'' (Some [''foo'', ''baz'']) (start []))))
   \<and> includes_str ''baz'' ''baz''
   \<and> [''foo'', ''baz''] \<noteq> []
   \<and> fst (run sample_env ''x'' (Some [''foo'', ''baz'']) (start [])) = Returned
   \<and> world (snd (run_try sample_env ''x'' (Some [''foo'', ''baz'']) (start []))) = [''foo'']"
proof -
  let ?s1 = "\<lparr>world = [], cmds = [''gh api user --jq .login''], console = [], tasks = []\<rparr>
               :: string list proc"
  let ?s2 = "\<lparr>world = [], cmds = [''gh api user --jq .login'', list_command ''acme''],
              console = [Fetching ''acme''], tasks = []\<rparr> :: string list proc"
  let ?all = "sort_by (by_full_name sample_env) (map normalize sample_raw)"
  let ?L = "[''foo'', ''baz'']"
  have a: "validateAndGetOwner sample_env (start []) = (Inr ''acme'', ?s1)"
    by code_simp
  have b: "getRepositories sample_env ''acme'' (print (Fetching ''acme'') ?s1) = (Inr ?all, ?s2)"
    by code_simp
  have i: "invoked ''acme'' ''foo'' (snd (run sample_env ''x'' (Some ?L) (start [])))"
    by code_simp
  have n: "\<not> invoked ''acme'' ''foo'' (start ([] :: string list))"
    by (simp add: invoked_def start_def)
  have l: "''baz'' \<in> set ?L" and ne: "?L \<noteq> []"
    by simp_all
  have names: "name ` set ?all = {''New'', ''bar'', ''foo''}"
    by code_simp
  have m: "''baz'' \<notin> name ` set ?all"
    unfolding names by simp
  have j: "join '', '' (notFound ?all ?L) = ''baz''"
    by code_simp
  have r: "run_selected sample_env ''acme'' ''x'' (selectedRepos ?all ?L) ?s2
      = (Inr (),
         \<lparr>world = [''foo''],
          cmds = [''gh api user --jq .login'', list_command ''acme'', view_command ''acme'' ''foo'',
                  sha_command ''acme'' ''foo'' ''trunk'', create_command ''acme'' ''foo'' ''x'' ''c0ffee''],
          console = [Fetching ''acme'', Creating ''x'' 1, All_done],
          tasks = [(''Creating branch in foo'', Completed)]\<rparr>)"
    by code_simp
  note inst = acted_on_subset_of_listing[OF a b, of "''x''" "Some ?L"]
  have "''foo'' \<in> name ` set ?all"
    using inst[THEN conjunct1, THEN spec, of "''foo''"] i n by simp
  moreover have "Repositories_not_found ''baz'' \<in> set (console (snd (run sample_env ''x'' (Some ?L) (start []))))
      \<and> includes_str ''baz'' ''baz''"
    using inst[THEN conjunct2, THEN conjunct1, THEN spec, THEN spec, of ?L "''baz''"] l m j
    by simp
  moreover have "fst (run sample_env ''x'' (Some ?L) (start [])) = Returned
      \<and> world (snd (run_try sample_env ''x'' (Some ?L) (start []))) = [''foo'']"
    using inst[THEN conjunct2, THEN conjunct2, THEN spec, of ?L] ne r by simp
  ultimately show ?thesis
    using a i l m ne by (intro conjI) simp_all
qed

end
